theory Spec2Isabelle
  imports Main "HOL-Library.Word"
begin

section \<open>Data model\<close>

text \<open>
  The repository is a walkthrough of an upgradable ERC-20 token: two Solidity contracts,
  \<^verbatim>\<open>ERC20UpgradableV1\<close> and \<^verbatim>\<open>ERC20UpgradableV2\<close>, a deploy script that puts V1 behind a
  transparent proxy, and an upgrade script that switches the proxy to V2.

  Solidity's \<^verbatim>\<open>address\<close> is a 160-bit value and \<^verbatim>\<open>uint256\<close> a 256-bit one; \<^verbatim>\<open>uint8\<close> is used
  by the initialisation counter.
\<close>

type_synonym address = "160 word"
type_synonym uint256 = "256 word"
type_synonym uint8 = "8 word"

text \<open>
  The storage of the proxied Instance, as the contracts' state variables in declaration
  order of the inheritance chain (Initializable, ERC20Upgradeable, PausableUpgradeable,
  OwnableUpgradeable), followed by the one state variable V2 declares itself,
  \<^verbatim>\<open>whitelistedAddresses\<close>. A Solidity mapping is total: an absent key reads as the zero
  value, so a mapping is a function. The leading underscore of the Solidity names is dropped.
\<close>

record storage =
  initialized :: uint8
  initializing :: bool
  balances :: "address \<Rightarrow> uint256"
  allowances :: "address \<Rightarrow> address \<Rightarrow> uint256"
  totalSupply :: uint256
  name :: string
  symbol :: string
  paused :: bool
  owner :: address
  whitelistedAddresses :: "address \<Rightarrow> bool"

text \<open>Freshly created storage: every slot is zero.\<close>

definition blank :: storage where
  "blank = \<lparr> initialized = 0, initializing = False, balances = (\<lambda>_. 0),
             allowances = (\<lambda>_ _. 0), totalSupply = 0, name = [], symbol = [],
             paused = False, owner = 0, whitelistedAddresses = (\<lambda>_. False) \<rparr>"

text \<open>
  Failures. The first group is the taxonomy of the specification; the second group are the
  reverts of the contracts and of the library code they inherit, named after the revert
  reason given in the comment.
\<close>

datatype error =
    Uninitialized
  | AlreadyInitialized          \<comment> \<open>"Initializable: contract is already initialized"\<close>
  | Unauthorized
  | SelectorClash
  | MigrationFailure
  | StorageLayoutViolation
  | UnknownImplementation       \<comment> \<open>upgrade to an id the registry does not resolve\<close>
  | UnknownSelector             \<comment> \<open>the implementation has no such function and no fallback\<close>
  | NotInitializing             \<comment> \<open>"Initializable: contract is not initializing"\<close>
  | IsInitializing              \<comment> \<open>"Initializable: contract is initializing"\<close>
  | CallerIsNotOwner            \<comment> \<open>"Ownable: caller is not the owner"\<close>
  | NewOwnerIsZero              \<comment> \<open>"Ownable: new owner is the zero address"\<close>
  | EnforcedPause               \<comment> \<open>"Pausable: paused"\<close>
  | ExpectedPause               \<comment> \<open>"Pausable: not paused"\<close>
  | ZeroAddress                 \<comment> \<open>"ERC20: ... the zero address"\<close>
  | InsufficientBalance         \<comment> \<open>"ERC20: ... amount exceeds balance"\<close>
  | InsufficientAllowance       \<comment> \<open>"ERC20: insufficient allowance"\<close>
  | DecreasedBelowZero          \<comment> \<open>"ERC20: decreased allowance below zero"\<close>
  | ArithmeticOverflow          \<comment> \<open>Panic(0x11): checked arithmetic of Solidity 0.8\<close>
  | RequireFailed               \<comment> \<open>a \<^verbatim>\<open>require\<close> without a reason\<close>

text \<open>Values returned by the external functions.\<close>

datatype retval = RUnit | RBool bool | RUint uint256 | RAddress address | RString string

text \<open>
  An external call: the function selector together with its arguments. The business
  functions are the public functions of the two contracts, declared or inherited; the last
  two are the management operations of the proxy. An upgrade may carry a migration call.
\<close>

datatype call =
    Initialize
  | Pause
  | Unpause
  | Mint address uint256
  | AddUser address
  | VerifyUser address
  | Transfer address uint256
  | Approve address uint256
  | TransferFrom address address uint256
  | IncreaseAllowance address uint256
  | DecreaseAllowance address uint256
  | Burn uint256
  | BurnFrom address uint256
  | RenounceOwnership
  | TransferOwnership address
  | BalanceOf address
  | TotalSupply
  | Allowance address address
  | Name
  | Symbol
  | Decimals
  | IsPaused
  | Owner
  | Upgrade nat "call option"
  | TransferAdmin address

section \<open>Sequencing of fallible steps\<close>

definition and_then :: "error + 'a \<Rightarrow> ('a \<Rightarrow> error + 'b) \<Rightarrow> error + 'b" where
  "and_then r k = (case r of Inl e \<Rightarrow> Inl e | Inr x \<Rightarrow> k x)"

definition returning :: "retval \<Rightarrow> error + storage \<Rightarrow> error + retval \<times> storage" where
  "returning v r = (case r of Inl e \<Rightarrow> Inl e | Inr s \<Rightarrow> Inr (v, s))"

definition view :: "retval \<Rightarrow> storage \<Rightarrow> error + retval \<times> storage" where
  "view v s = Inr (v, s)"

text \<open>Addition of Solidity 0.8 outside an \<^verbatim>\<open>unchecked\<close> block: it reverts on overflow.\<close>

definition checked_add :: "uint256 \<Rightarrow> uint256 \<Rightarrow> error + uint256" where
  "checked_add a b = (if unat a + unat b < 2 ^ 256 then Inr (a + b) else Inl ArithmeticOverflow)"

section \<open>The inherited library code\<close>

text \<open>
  Modelled from the spec: the modifiers and the inherited functions that the two contracts
  use (\<^verbatim>\<open>initializer\<close>, \<^verbatim>\<open>_disableInitializers\<close>, \<^verbatim>\<open>onlyOwner\<close>, \<^verbatim>\<open>whenNotPaused\<close>, \<^verbatim>\<open>_mint\<close>,
  \<^verbatim>\<open>_pause\<close>, the \<^verbatim>\<open>__..._init\<close> functions and the public ERC-20, burnable and ownable
  functions) are missing from the repository: they belong to OpenZeppelin's
  contracts-upgradeable, which both contracts import. The one-time initialisation follows
  section 4.3 of the specification (precondition \<open>initialized = false\<close>, the setup runs, the
  flag is set in the same call, a later call fails with \<open>AlreadyInitialized\<close>). The
  specification leaves the token's business logic to the implementation; there the
  definitions follow the library's published source, statement by statement (release line
  4.x, the one that has \<^verbatim>\<open>_disableInitializers\<close> and an argument-free \<^verbatim>\<open>__Ownable_init\<close>).
  Events are not modelled: they do not touch storage. The hook \<^verbatim>\<open>_afterTokenTransfer\<close> is
  empty and no contract overrides it. The Solidity name is given with each definition.
\<close>

subsection \<open>Initializable\<close>

text \<open>
  Modifier \<^verbatim>\<open>initializer\<close>. The library's condition has a second disjunct,
  \<^verbatim>\<open>!isContract(address(this)) && _initialized == 1\<close>, for an initializer nested in another
  one while a contract is under construction. It never holds here: the only call made
  during a construction is the deploy script's \<^verbatim>\<open>initialize()\<close>, which finds the counter at
  0, and every other call reaches a deployed contract.
\<close>

definition initializer :: "(storage \<Rightarrow> error + storage) \<Rightarrow> storage \<Rightarrow> error + storage" where
  "initializer body s =
     (let isTopLevelCall = \<not> initializing s in
      if \<not> (isTopLevelCall \<and> initialized s < 1) then Inl AlreadyInitialized
      else
        let s1 = s\<lparr>initialized := 1\<rparr>;
            s2 = (if isTopLevelCall then s1\<lparr>initializing := True\<rparr> else s1)
        in and_then (body s2)
             (\<lambda>s3. Inr (if isTopLevelCall then s3\<lparr>initializing := False\<rparr> else s3)))"

text \<open>Modifier \<^verbatim>\<open>onlyInitializing\<close>.\<close>

definition onlyInitializing :: "(storage \<Rightarrow> error + storage) \<Rightarrow> storage \<Rightarrow> error + storage" where
  "onlyInitializing body s = (if \<not> initializing s then Inl NotInitializing else body s)"

text \<open>\<^verbatim>\<open>_disableInitializers()\<close>.\<close>

definition disableInitializers :: "storage \<Rightarrow> error + storage" where
  "disableInitializers s =
     (if initializing s then Inl IsInitializing
      else if initialized s \<noteq> 255 then Inr (s\<lparr>initialized := 255\<rparr>)
      else Inr s)"

subsection \<open>OwnableUpgradeable\<close>

text \<open>\<^verbatim>\<open>_transferOwnership(newOwner)\<close>, \<^verbatim>\<open>__Ownable_init()\<close> and modifier \<^verbatim>\<open>onlyOwner\<close>.\<close>

definition internal_transferOwnership :: "address \<Rightarrow> storage \<Rightarrow> error + storage" where
  "internal_transferOwnership newOwner s = Inr (s\<lparr>owner := newOwner\<rparr>)"

definition Ownable_init :: "address \<Rightarrow> storage \<Rightarrow> error + storage" where
  "Ownable_init msg_sender = onlyInitializing (internal_transferOwnership msg_sender)"

definition onlyOwner ::
  "address \<Rightarrow> (storage \<Rightarrow> error + storage) \<Rightarrow> storage \<Rightarrow> error + storage" where
  "onlyOwner msg_sender body s =
     (if owner s \<noteq> msg_sender then Inl CallerIsNotOwner else body s)"

definition renounceOwnership :: "address \<Rightarrow> storage \<Rightarrow> error + storage" where
  "renounceOwnership msg_sender = onlyOwner msg_sender (internal_transferOwnership 0)"

definition transferOwnership :: "address \<Rightarrow> address \<Rightarrow> storage \<Rightarrow> error + storage" where
  "transferOwnership msg_sender newOwner =
     onlyOwner msg_sender
       (\<lambda>s. if newOwner = 0 then Inl NewOwnerIsZero else internal_transferOwnership newOwner s)"

subsection \<open>PausableUpgradeable\<close>

text \<open>
  \<^verbatim>\<open>__Pausable_init()\<close>, the modifiers \<^verbatim>\<open>whenNotPaused\<close> and \<^verbatim>\<open>whenPaused\<close>, \<^verbatim>\<open>_pause()\<close> and
  \<^verbatim>\<open>_unpause()\<close>.
\<close>

definition Pausable_init :: "storage \<Rightarrow> error + storage" where
  "Pausable_init = onlyInitializing (\<lambda>s. Inr (s\<lparr>paused := False\<rparr>))"

definition whenNotPaused :: "(storage \<Rightarrow> error + storage) \<Rightarrow> storage \<Rightarrow> error + storage" where
  "whenNotPaused body s = (if paused s then Inl EnforcedPause else body s)"

definition whenPaused :: "(storage \<Rightarrow> error + storage) \<Rightarrow> storage \<Rightarrow> error + storage" where
  "whenPaused body s = (if \<not> paused s then Inl ExpectedPause else body s)"

definition internal_pause :: "storage \<Rightarrow> error + storage" where
  "internal_pause = whenNotPaused (\<lambda>s. Inr (s\<lparr>paused := True\<rparr>))"

definition internal_unpause :: "storage \<Rightarrow> error + storage" where
  "internal_unpause = whenPaused (\<lambda>s. Inr (s\<lparr>paused := False\<rparr>))"

subsection \<open>ERC20Upgradeable and ERC20BurnableUpgradeable\<close>

text \<open>
  The internal functions call the virtual hook \<^verbatim>\<open>_beforeTokenTransfer\<close>, which both
  contracts override; the hook in force is a parameter here. The library's own hook, which
  the overrides reach through \<^verbatim>\<open>super\<close>, is empty.
\<close>

type_synonym hook = "address \<Rightarrow> address \<Rightarrow> uint256 \<Rightarrow> storage \<Rightarrow> error + storage"

definition ERC20_init :: "string \<Rightarrow> string \<Rightarrow> storage \<Rightarrow> error + storage" where
  "ERC20_init tokenName tokenSymbol =
     onlyInitializing (\<lambda>s. Inr (s\<lparr>name := tokenName, symbol := tokenSymbol\<rparr>))"

definition ERC20Burnable_init :: "storage \<Rightarrow> error + storage" where
  "ERC20Burnable_init = onlyInitializing (\<lambda>s. Inr s)"

definition super_beforeTokenTransfer :: hook where
  "super_beforeTokenTransfer from to amount s = Inr s"

text \<open>\<^verbatim>\<open>_mint(account, amount)\<close>.\<close>

definition internal_mint :: "hook \<Rightarrow> address \<Rightarrow> uint256 \<Rightarrow> storage \<Rightarrow> error + storage" where
  "internal_mint beforeTokenTransfer account amount s =
     (if account = 0 then Inl ZeroAddress
      else and_then (beforeTokenTransfer 0 account amount s)
        (\<lambda>s. and_then (checked_add (totalSupply s) amount)
          (\<lambda>supply. Inr (s\<lparr>totalSupply := supply,
                            balances := (balances s)(account := balances s account + amount)\<rparr>))))"

text \<open>\<^verbatim>\<open>_burn(account, amount)\<close>.\<close>

definition internal_burn :: "hook \<Rightarrow> address \<Rightarrow> uint256 \<Rightarrow> storage \<Rightarrow> error + storage" where
  "internal_burn beforeTokenTransfer account amount s =
     (if account = 0 then Inl ZeroAddress
      else and_then (beforeTokenTransfer account 0 amount s)
        (\<lambda>s. let accountBalance = balances s account in
              if \<not> amount \<le> accountBalance then Inl InsufficientBalance
              else Inr (s\<lparr>balances := (balances s)(account := accountBalance - amount),
                          totalSupply := totalSupply s - amount\<rparr>)))"

text \<open>\<^verbatim>\<open>_transfer(from, to, amount)\<close>.\<close>

definition internal_transfer ::
  "hook \<Rightarrow> address \<Rightarrow> address \<Rightarrow> uint256 \<Rightarrow> storage \<Rightarrow> error + storage" where
  "internal_transfer beforeTokenTransfer from to amount s =
     (if from = 0 then Inl ZeroAddress
      else if to = 0 then Inl ZeroAddress
      else and_then (beforeTokenTransfer from to amount s)
        (\<lambda>s. let fromBalance = balances s from in
              if \<not> amount \<le> fromBalance then Inl InsufficientBalance
              else
                let b1 = (balances s)(from := fromBalance - amount);
                    b2 = b1(to := b1 to + amount)
                in Inr (s\<lparr>balances := b2\<rparr>)))"

text \<open>\<^verbatim>\<open>_approve(owner, spender, amount)\<close> and \<^verbatim>\<open>_spendAllowance(owner, spender, amount)\<close>.\<close>

definition internal_approve :: "address \<Rightarrow> address \<Rightarrow> uint256 \<Rightarrow> storage \<Rightarrow> error + storage" where
  "internal_approve holder spender amount s =
     (if holder = 0 then Inl ZeroAddress
      else if spender = 0 then Inl ZeroAddress
      else Inr (s\<lparr>allowances := (allowances s)(holder := (allowances s holder)(spender := amount))\<rparr>))"

definition internal_spendAllowance ::
  "address \<Rightarrow> address \<Rightarrow> uint256 \<Rightarrow> storage \<Rightarrow> error + storage" where
  "internal_spendAllowance holder spender amount s =
     (let currentAllowance = allowances s holder spender in
      if currentAllowance \<noteq> - 1 then
        if \<not> amount \<le> currentAllowance then Inl InsufficientAllowance
        else internal_approve holder spender (currentAllowance - amount) s
      else Inr s)"

text \<open>The public functions of the token; \<^verbatim>\<open>msg_sender\<close> is the caller.\<close>

definition transfer :: "hook \<Rightarrow> address \<Rightarrow> address \<Rightarrow> uint256 \<Rightarrow> storage \<Rightarrow> error + storage" where
  "transfer h msg_sender to amount = internal_transfer h msg_sender to amount"

definition approve :: "address \<Rightarrow> address \<Rightarrow> uint256 \<Rightarrow> storage \<Rightarrow> error + storage" where
  "approve msg_sender spender amount = internal_approve msg_sender spender amount"

definition transferFrom ::
  "hook \<Rightarrow> address \<Rightarrow> address \<Rightarrow> address \<Rightarrow> uint256 \<Rightarrow> storage \<Rightarrow> error + storage" where
  "transferFrom h msg_sender from to amount s =
     and_then (internal_spendAllowance from msg_sender amount s) (internal_transfer h from to amount)"

definition increaseAllowance :: "address \<Rightarrow> address \<Rightarrow> uint256 \<Rightarrow> storage \<Rightarrow> error + storage" where
  "increaseAllowance msg_sender spender addedValue s =
     and_then (checked_add (allowances s msg_sender spender) addedValue)
       (\<lambda>v. internal_approve msg_sender spender v s)"

definition decreaseAllowance :: "address \<Rightarrow> address \<Rightarrow> uint256 \<Rightarrow> storage \<Rightarrow> error + storage" where
  "decreaseAllowance msg_sender spender subtractedValue s =
     (let currentAllowance = allowances s msg_sender spender in
      if \<not> subtractedValue \<le> currentAllowance then Inl DecreasedBelowZero
      else internal_approve msg_sender spender (currentAllowance - subtractedValue) s)"

definition burn :: "hook \<Rightarrow> address \<Rightarrow> uint256 \<Rightarrow> storage \<Rightarrow> error + storage" where
  "burn h msg_sender amount = internal_burn h msg_sender amount"

definition burnFrom :: "hook \<Rightarrow> address \<Rightarrow> address \<Rightarrow> uint256 \<Rightarrow> storage \<Rightarrow> error + storage" where
  "burnFrom h msg_sender account amount s =
     and_then (internal_spendAllowance account msg_sender amount s) (internal_burn h account amount)"

section \<open>The contracts of the repository\<close>

type_synonym external_function = "address \<Rightarrow> storage \<Rightarrow> error + retval \<times> storage"

text \<open>
  An implementation is a function table keyed by the call's selector; \<open>None\<close> means that
  the contract has no function of that name.
\<close>

type_synonym implementation = "call \<Rightarrow> external_function option"

subsection \<open>ERC20UpgradableV1\<close>

text \<open>The constructor runs once, on the storage of the implementation contract itself.\<close>

definition V1_constructor :: "storage \<Rightarrow> error + storage" where
  "V1_constructor = disableInitializers"

definition V1_initialize :: "address \<Rightarrow> storage \<Rightarrow> error + storage" where
  "V1_initialize msg_sender =
     initializer (\<lambda>s.
       and_then (ERC20_init ''ERC20Upgradable'' ''EUC'' s) (\<lambda>s.
       and_then (ERC20Burnable_init s) (\<lambda>s.
       and_then (Pausable_init s) (\<lambda>s.
       Ownable_init msg_sender s))))"

definition V1_pause :: "address \<Rightarrow> storage \<Rightarrow> error + storage" where
  "V1_pause msg_sender = onlyOwner msg_sender internal_pause"

definition V1_unpause :: "address \<Rightarrow> storage \<Rightarrow> error + storage" where
  "V1_unpause msg_sender = onlyOwner msg_sender internal_unpause"

definition V1_beforeTokenTransfer :: hook where
  "V1_beforeTokenTransfer from to amount = whenNotPaused (super_beforeTokenTransfer from to amount)"

definition V1_mint :: "address \<Rightarrow> address \<Rightarrow> uint256 \<Rightarrow> storage \<Rightarrow> error + storage" where
  "V1_mint msg_sender to amount = internal_mint V1_beforeTokenTransfer to amount"

fun implementation_V1 :: implementation where
  "implementation_V1 Initialize = Some (\<lambda>c s. returning RUnit (V1_initialize c s))"
| "implementation_V1 Pause = Some (\<lambda>c s. returning RUnit (V1_pause c s))"
| "implementation_V1 Unpause = Some (\<lambda>c s. returning RUnit (V1_unpause c s))"
| "implementation_V1 (Mint to amount) = Some (\<lambda>c s. returning RUnit (V1_mint c to amount s))"
| "implementation_V1 (Transfer to amount) =
     Some (\<lambda>c s. returning (RBool True) (transfer V1_beforeTokenTransfer c to amount s))"
| "implementation_V1 (Approve spender amount) =
     Some (\<lambda>c s. returning (RBool True) (approve c spender amount s))"
| "implementation_V1 (TransferFrom from to amount) =
     Some (\<lambda>c s. returning (RBool True) (transferFrom V1_beforeTokenTransfer c from to amount s))"
| "implementation_V1 (IncreaseAllowance spender v) =
     Some (\<lambda>c s. returning (RBool True) (increaseAllowance c spender v s))"
| "implementation_V1 (DecreaseAllowance spender v) =
     Some (\<lambda>c s. returning (RBool True) (decreaseAllowance c spender v s))"
| "implementation_V1 (Burn amount) =
     Some (\<lambda>c s. returning RUnit (burn V1_beforeTokenTransfer c amount s))"
| "implementation_V1 (BurnFrom account amount) =
     Some (\<lambda>c s. returning RUnit (burnFrom V1_beforeTokenTransfer c account amount s))"
| "implementation_V1 RenounceOwnership = Some (\<lambda>c s. returning RUnit (renounceOwnership c s))"
| "implementation_V1 (TransferOwnership newOwner) =
     Some (\<lambda>c s. returning RUnit (transferOwnership c newOwner s))"
| "implementation_V1 (BalanceOf account) = Some (\<lambda>c s. view (RUint (balances s account)) s)"
| "implementation_V1 TotalSupply = Some (\<lambda>c s. view (RUint (totalSupply s)) s)"
| "implementation_V1 (Allowance holder spender) =
     Some (\<lambda>c s. view (RUint (allowances s holder spender)) s)"
| "implementation_V1 Name = Some (\<lambda>c s. view (RString (name s)) s)"
| "implementation_V1 Symbol = Some (\<lambda>c s. view (RString (symbol s)) s)"
| "implementation_V1 Decimals = Some (\<lambda>c s. view (RUint 18) s)"
| "implementation_V1 IsPaused = Some (\<lambda>c s. view (RBool (paused s)) s)"
| "implementation_V1 Owner = Some (\<lambda>c s. view (RAddress (owner s)) s)"
| "implementation_V1 (AddUser a) = None"
| "implementation_V1 (VerifyUser a) = None"
| "implementation_V1 (Upgrade n m) = None"
| "implementation_V1 (TransferAdmin a) = None"

subsection \<open>ERC20UpgradableV2\<close>

definition V2_constructor :: "storage \<Rightarrow> error + storage" where
  "V2_constructor = disableInitializers"

definition V2_addUser :: "address \<Rightarrow> address \<Rightarrow> storage \<Rightarrow> error + storage" where
  "V2_addUser msg_sender addressToWhitelist =
     onlyOwner msg_sender
       (\<lambda>s. Inr (s\<lparr>whitelistedAddresses := (whitelistedAddresses s)(addressToWhitelist := True)\<rparr>))"

definition V2_verifyUser :: "address \<Rightarrow> storage \<Rightarrow> bool" where
  "V2_verifyUser whitelistedAddress s =
     (let userIsWhitelisted = whitelistedAddresses s whitelistedAddress in userIsWhitelisted)"

definition V2_initialize :: "address \<Rightarrow> storage \<Rightarrow> error + storage" where
  "V2_initialize msg_sender =
     initializer (\<lambda>s.
       and_then (ERC20_init ''ERC20Upgradable'' ''EUC'' s) (\<lambda>s.
       and_then (ERC20Burnable_init s) (\<lambda>s.
       and_then (Pausable_init s) (\<lambda>s.
       Ownable_init msg_sender s))))"

definition V2_pause :: "address \<Rightarrow> storage \<Rightarrow> error + storage" where
  "V2_pause msg_sender = onlyOwner msg_sender internal_pause"

definition V2_unpause :: "address \<Rightarrow> storage \<Rightarrow> error + storage" where
  "V2_unpause msg_sender = onlyOwner msg_sender internal_unpause"

definition V2_beforeTokenTransfer :: hook where
  "V2_beforeTokenTransfer from to amount = whenNotPaused (super_beforeTokenTransfer from to amount)"

definition V2_mint :: "address \<Rightarrow> address \<Rightarrow> uint256 \<Rightarrow> storage \<Rightarrow> error + storage" where
  "V2_mint msg_sender to amount s =
     (if \<not> V2_verifyUser to s then Inl RequireFailed
      else internal_mint V2_beforeTokenTransfer to amount s)"

fun implementation_V2 :: implementation where
  "implementation_V2 Initialize = Some (\<lambda>c s. returning RUnit (V2_initialize c s))"
| "implementation_V2 Pause = Some (\<lambda>c s. returning RUnit (V2_pause c s))"
| "implementation_V2 Unpause = Some (\<lambda>c s. returning RUnit (V2_unpause c s))"
| "implementation_V2 (Mint to amount) = Some (\<lambda>c s. returning RUnit (V2_mint c to amount s))"
| "implementation_V2 (AddUser a) = Some (\<lambda>c s. returning RUnit (V2_addUser c a s))"
| "implementation_V2 (VerifyUser a) = Some (\<lambda>c s. view (RBool (V2_verifyUser a s)) s)"
| "implementation_V2 (Transfer to amount) =
     Some (\<lambda>c s. returning (RBool True) (transfer V2_beforeTokenTransfer c to amount s))"
| "implementation_V2 (Approve spender amount) =
     Some (\<lambda>c s. returning (RBool True) (approve c spender amount s))"
| "implementation_V2 (TransferFrom from to amount) =
     Some (\<lambda>c s. returning (RBool True) (transferFrom V2_beforeTokenTransfer c from to amount s))"
| "implementation_V2 (IncreaseAllowance spender v) =
     Some (\<lambda>c s. returning (RBool True) (increaseAllowance c spender v s))"
| "implementation_V2 (DecreaseAllowance spender v) =
     Some (\<lambda>c s. returning (RBool True) (decreaseAllowance c spender v s))"
| "implementation_V2 (Burn amount) =
     Some (\<lambda>c s. returning RUnit (burn V2_beforeTokenTransfer c amount s))"
| "implementation_V2 (BurnFrom account amount) =
     Some (\<lambda>c s. returning RUnit (burnFrom V2_beforeTokenTransfer c account amount s))"
| "implementation_V2 RenounceOwnership = Some (\<lambda>c s. returning RUnit (renounceOwnership c s))"
| "implementation_V2 (TransferOwnership newOwner) =
     Some (\<lambda>c s. returning RUnit (transferOwnership c newOwner s))"
| "implementation_V2 (BalanceOf account) = Some (\<lambda>c s. view (RUint (balances s account)) s)"
| "implementation_V2 TotalSupply = Some (\<lambda>c s. view (RUint (totalSupply s)) s)"
| "implementation_V2 (Allowance holder spender) =
     Some (\<lambda>c s. view (RUint (allowances s holder spender)) s)"
| "implementation_V2 Name = Some (\<lambda>c s. view (RString (name s)) s)"
| "implementation_V2 Symbol = Some (\<lambda>c s. view (RString (symbol s)) s)"
| "implementation_V2 Decimals = Some (\<lambda>c s. view (RUint 18) s)"
| "implementation_V2 IsPaused = Some (\<lambda>c s. view (RBool (paused s)) s)"
| "implementation_V2 Owner = Some (\<lambda>c s. view (RAddress (owner s)) s)"
| "implementation_V2 (Upgrade n m) = None"
| "implementation_V2 (TransferAdmin a) = None"

text \<open>
  A call sent to an implementation contract at its own address runs on that contract's own
  storage; a revert leaves the storage as it was.
\<close>

definition direct_call ::
  "implementation \<Rightarrow> address \<Rightarrow> call \<Rightarrow> storage \<Rightarrow> (error + retval) \<times> storage" where
  "direct_call impl caller c s =
     (case impl c of
        None \<Rightarrow> (Inl UnknownSelector, s)
      | Some f \<Rightarrow> (case f caller s of Inl e \<Rightarrow> (Inl e, s) | Inr (v, s') \<Rightarrow> (Inr v, s')))"

fun direct_run :: "implementation \<Rightarrow> (address \<times> call) list \<Rightarrow> storage \<Rightarrow> storage" where
  "direct_run impl [] s = s"
| "direct_run impl ((caller, c) # rest) s = direct_run impl rest (snd (direct_call impl caller c s))"

section \<open>The proxy\<close>

text \<open>
  Modelled from the spec: the proxy that the deploy script creates with
  \<^verbatim>\<open>upgrades.deployProxy(..., {kind: "transparent"})\<close> and that the upgrade script switches with
  \<^verbatim>\<open>upgrades.upgradeProxy\<close> is library code; only these two callers are in the repository. The
  Instance, the Implementation Registry, the Upgrade Controller and the Dispatcher below
  follow sections 3, 4.1, 4.4 and 4.5 of the specification. The one-time initialisation flag
  is not a field of the Instance record: the contracts keep it in their own storage
  (\<open>initialized\<close>), and \<^verbatim>\<open>initialize\<close> is a function of the implementation.
\<close>

record UpgradeRecord =
  timestamp :: nat
  from_implementation :: nat
  to_implementation :: nat
  authorizer :: address

record Instance =
  active_implementation :: nat
  admin_identity :: address
  upgrade_log :: "UpgradeRecord list"
  store :: storage

type_synonym registry = "implementation list"

definition register :: "implementation \<Rightarrow> registry \<Rightarrow> nat \<times> registry" where
  "register impl reg = (length reg, reg @ [impl])"

definition resolve :: "registry \<Rightarrow> nat \<Rightarrow> implementation option" where
  "resolve reg i = (if i < length reg then Some (reg ! i) else None)"

fun is_management :: "call \<Rightarrow> bool" where
  "is_management (Upgrade n m) = True"
| "is_management (TransferAdmin a) = True"
| "is_management _ = False"

text \<open>
  Forwarding: the implementation's function runs against the Instance's storage. The last
  argument is the failure reported when the implementation has no such function.
\<close>

definition forward ::
  "implementation \<Rightarrow> address \<Rightarrow> call \<Rightarrow> error \<Rightarrow> Instance \<Rightarrow> error + retval \<times> Instance" where
  "forward impl caller c missing inst =
     (case impl c of
        None \<Rightarrow> Inl missing
      | Some f \<Rightarrow>
          (case f caller (store inst) of
             Inl e \<Rightarrow> Inl e
           | Inr (v, s) \<Rightarrow> Inr (v, inst\<lparr>store := s\<rparr>)))"

definition upgrade ::
  "registry \<Rightarrow> nat \<Rightarrow> address \<Rightarrow> nat \<Rightarrow> call option \<Rightarrow> Instance \<Rightarrow> error + retval \<times> Instance" where
  "upgrade reg now caller new_id migration inst =
     (if caller \<noteq> admin_identity inst then Inl Unauthorized
      else case resolve reg new_id of
        None \<Rightarrow> Inl UnknownImplementation
      | Some impl \<Rightarrow>
          let inst1 = inst\<lparr>active_implementation := new_id\<rparr>;
              migrated = (case migration of
                            None \<Rightarrow> Inr (RUnit, inst1)
                          | Some m \<Rightarrow> forward impl caller m UnknownSelector inst1)
          in case migrated of
               Inl e \<Rightarrow> Inl MigrationFailure
             | Inr (v, inst2) \<Rightarrow>
                 Inr (RUnit, inst2\<lparr>upgrade_log := upgrade_log inst2 @
                        [\<lparr>timestamp = now, from_implementation = active_implementation inst,
                          to_implementation = new_id, authorizer = caller\<rparr>]\<rparr>))"

definition transferAdmin :: "address \<Rightarrow> address \<Rightarrow> Instance \<Rightarrow> error + retval \<times> Instance" where
  "transferAdmin caller new_admin inst =
     (if caller \<noteq> admin_identity inst then Inl Unauthorized
      else Inr (RUnit, inst\<lparr>admin_identity := new_admin\<rparr>))"

text \<open>The Dispatcher: caller identity first, selector second.\<close>

definition handle ::
  "registry \<Rightarrow> nat \<Rightarrow> address \<Rightarrow> call \<Rightarrow> Instance \<Rightarrow> error + retval \<times> Instance" where
  "handle reg now caller c inst =
     (if is_management c \<and> caller = admin_identity inst then
        (case c of
           Upgrade new_id migration \<Rightarrow> upgrade reg now caller new_id migration inst
         | TransferAdmin new_admin \<Rightarrow> transferAdmin caller new_admin inst
         | _ \<Rightarrow> Inl UnknownSelector)
      else if is_management c then
        (case resolve reg (active_implementation inst) of
           None \<Rightarrow> Inl Unauthorized
         | Some impl \<Rightarrow> forward impl caller c Unauthorized inst)
      else
        (case resolve reg (active_implementation inst) of
           None \<Rightarrow> Inl Uninitialized
         | Some impl \<Rightarrow> forward impl caller c UnknownSelector inst))"

text \<open>
  The host executes a call atomically: a failed call leaves the Instance exactly as it was.
\<close>

definition execute ::
  "registry \<Rightarrow> nat \<Rightarrow> address \<Rightarrow> call \<Rightarrow> Instance \<Rightarrow> (error + retval) \<times> Instance" where
  "execute reg now caller c inst =
     (case handle reg now caller c inst of
        Inl e \<Rightarrow> (Inl e, inst)
      | Inr (v, inst') \<Rightarrow> (Inr v, inst'))"

text \<open>A transaction is a time stamp, a caller and a call; a history is a list of them.\<close>

type_synonym tx = "nat \<times> address \<times> call"

fun run :: "registry \<Rightarrow> tx list \<Rightarrow> Instance \<Rightarrow> Instance" where
  "run reg [] inst = inst"
| "run reg ((now, caller, c) # rest) inst = run reg rest (snd (execute reg now caller c inst))"

subsection \<open>The scripts\<close>

text \<open>
  The registry of the repository holds V1 under id 0 and V2 under id 1.
\<close>

definition V1_id :: nat where "V1_id = 0"
definition V2_id :: nat where "V2_id = 1"

definition repository :: registry where
  "repository = snd (register implementation_V2 (snd (register implementation_V1 [])))"

text \<open>
  \<^verbatim>\<open>scripts/deploy.js\<close>: \<^verbatim>\<open>upgrades.deployProxy(ERC20UpgradableV1, [], {initializer:
  "initialize", kind: "transparent"})\<close> creates the Instance bound to V1 and calls
  \<^verbatim>\<open>initialize()\<close> through it in the same operation, with the deployer as caller.
\<close>

definition create :: "address \<Rightarrow> nat \<Rightarrow> Instance" where
  "create admin impl_id =
     \<lparr> active_implementation = impl_id, admin_identity = admin, upgrade_log = [], store = blank \<rparr>"

definition deployProxy :: "registry \<Rightarrow> nat \<Rightarrow> address \<Rightarrow> address \<Rightarrow> error + Instance" where
  "deployProxy reg now deployer admin =
     (case handle reg now deployer Initialize (create admin V1_id) of
        Inl e \<Rightarrow> Inl e
      | Inr (v, inst) \<Rightarrow> Inr inst)"

text \<open>
  \<^verbatim>\<open>scripts/upgrade.js\<close>: \<^verbatim>\<open>upgrades.upgradeProxy(proxy, ERC20UpgradableV2)\<close> is the
  management call \<^verbatim>\<open>upgrade(V2)\<close> without a migration call.
\<close>

definition upgradeProxy :: "call" where
  "upgradeProxy = Upgrade V2_id None"

section \<open>The storage region and its layouts\<close>

text \<open>
  Modelled from the spec: how the fields of an implementation are placed in the Instance's
  storage region is the work of the Solidity compiler and of the proxy, neither of which is in
  the repository. Following sections 3 and 4.2 of the specification, the region is a family
  of positions, and the business fields of an implementation occupy sequentially assigned
  positions: a layout is the list of an implementation's state variables in declaration
  order, and the field at index \<open>i\<close> of the list lives at position \<open>i\<close>. (The reserved gaps of
  the library contracts and the packing of small fields into one slot are not modelled.)
  A position holds a value of the type of the field that was written there; a position never
  written is \<open>Untouched\<close>.
\<close>

datatype field =
    F_initialized | F_initializing | F_balances | F_allowances | F_totalSupply
  | F_name | F_symbol | F_paused | F_owner | F_whitelistedAddresses

datatype cell =
    Untouched
  | CUint8 uint8
  | CBool bool
  | CUint256 uint256
  | CAddress address
  | CString string
  | CBalances "address \<Rightarrow> uint256"
  | CAllowances "address \<Rightarrow> address \<Rightarrow> uint256"
  | CWhitelist "address \<Rightarrow> bool"

type_synonym region = "nat \<Rightarrow> cell"
type_synonym layout = "field list"

text \<open>The position of a field under a layout: the index of its declaration.\<close>

fun position :: "layout \<Rightarrow> field \<Rightarrow> nat option" where
  "position [] f = None"
| "position (g # rest) f = (if g = f then Some 0 else map_option Suc (position rest f))"

definition read_field :: "layout \<Rightarrow> region \<Rightarrow> field \<Rightarrow> cell" where
  "read_field L R f = (case position L f of None \<Rightarrow> Untouched | Some i \<Rightarrow> R i)"

text \<open>
  Code compiled against a layout reads a field at the field's position. An untouched position
  reads as the zero value of the field's type, as in Solidity. A position that holds a value
  of another type can only come from a layout that reorders or retypes a used position, which
  the specification forbids (\<open>StorageLayoutViolation\<close>, not detectable at call time); it is read
  as the zero value too.
\<close>

fun as_uint8 :: "cell \<Rightarrow> uint8" where
  "as_uint8 (CUint8 v) = v" | "as_uint8 _ = 0"

fun as_bool :: "cell \<Rightarrow> bool" where
  "as_bool (CBool v) = v" | "as_bool _ = False"

fun as_uint256 :: "cell \<Rightarrow> uint256" where
  "as_uint256 (CUint256 v) = v" | "as_uint256 _ = 0"

fun as_address :: "cell \<Rightarrow> address" where
  "as_address (CAddress v) = v" | "as_address _ = 0"

fun as_string :: "cell \<Rightarrow> string" where
  "as_string (CString v) = v" | "as_string _ = []"

fun as_balances :: "cell \<Rightarrow> address \<Rightarrow> uint256" where
  "as_balances (CBalances v) = v" | "as_balances _ = (\<lambda>_. 0)"

fun as_allowances :: "cell \<Rightarrow> address \<Rightarrow> address \<Rightarrow> uint256" where
  "as_allowances (CAllowances v) = v" | "as_allowances _ = (\<lambda>_ _. 0)"

fun as_whitelist :: "cell \<Rightarrow> address \<Rightarrow> bool" where
  "as_whitelist (CWhitelist v) = v" | "as_whitelist _ = (\<lambda>_. False)"

definition load :: "layout \<Rightarrow> region \<Rightarrow> storage" where
  "load L R =
     \<lparr> initialized = as_uint8 (read_field L R F_initialized),
       initializing = as_bool (read_field L R F_initializing),
       balances = as_balances (read_field L R F_balances),
       allowances = as_allowances (read_field L R F_allowances),
       totalSupply = as_uint256 (read_field L R F_totalSupply),
       name = as_string (read_field L R F_name),
       symbol = as_string (read_field L R F_symbol),
       paused = as_bool (read_field L R F_paused),
       owner = as_address (read_field L R F_owner),
       whitelistedAddresses = as_whitelist (read_field L R F_whitelistedAddresses) \<rparr>"

text \<open>The value of a field of the storage, as the content of a position.\<close>

fun field_cell :: "field \<Rightarrow> storage \<Rightarrow> cell" where
  "field_cell F_initialized s = CUint8 (initialized s)"
| "field_cell F_initializing s = CBool (initializing s)"
| "field_cell F_balances s = CBalances (balances s)"
| "field_cell F_allowances s = CAllowances (allowances s)"
| "field_cell F_totalSupply s = CUint256 (totalSupply s)"
| "field_cell F_name s = CString (name s)"
| "field_cell F_symbol s = CString (symbol s)"
| "field_cell F_paused s = CBool (paused s)"
| "field_cell F_owner s = CAddress (owner s)"
| "field_cell F_whitelistedAddresses s = CWhitelist (whitelistedAddresses s)"

text \<open>Writing back: every field of the layout goes to its position; the rest stays.\<close>

definition save :: "layout \<Rightarrow> storage \<Rightarrow> region \<Rightarrow> region" where
  "save L s R = (\<lambda>i. if i < length L then field_cell (L ! i) s else R i)"

text \<open>
  \<open>LB\<close> only appends fields relative to \<open>LA\<close>: it starts with the fields of \<open>LA\<close>, in the same
  order.
\<close>

definition appends :: "layout \<Rightarrow> layout \<Rightarrow> bool" where
  "appends LA LB = (take (length LA) LB = LA)"

text \<open>
  The layouts of the two contracts. Both inherit, in this order, from Initializable,
  ERC20Upgradeable, ERC20BurnableUpgradeable (no state variable), PausableUpgradeable and
  OwnableUpgradeable; V1 declares no state variable of its own, V2 declares
  \<^verbatim>\<open>whitelistedAddresses\<close>, which therefore comes last.
\<close>

definition layout_V1 :: layout where
  "layout_V1 = [F_initialized, F_initializing, F_balances, F_allowances, F_totalSupply,
                F_name, F_symbol, F_paused, F_owner]"

definition layout_V2 :: layout where
  "layout_V2 = layout_V1 @ [F_whitelistedAddresses]"

text \<open>
  A deployed implementation is its layout together with its function table. The Instance
  with its storage as a region, and the Dispatcher and the Upgrade Controller of sections 4.1
  and 4.5 on it: a forwarded function runs on the storage loaded through the layout of the
  implementation that defines it, and what it returns is written back through that layout.
\<close>

type_synonym contract = "layout \<times> implementation"

definition lookup :: "contract list \<Rightarrow> nat \<Rightarrow> contract option" where
  "lookup contracts i = (if i < length contracts then Some (contracts ! i) else None)"

record Proxy =
  proxy_implementation :: nat
  proxy_admin :: address
  proxy_log :: "UpgradeRecord list"
  region :: region

definition region_forward ::
  "contract \<Rightarrow> address \<Rightarrow> call \<Rightarrow> error \<Rightarrow> Proxy \<Rightarrow> error + retval \<times> Proxy" where
  "region_forward ct caller c missing p =
     (case snd ct c of
        None \<Rightarrow> Inl missing
      | Some f \<Rightarrow>
          (case f caller (load (fst ct) (region p)) of
             Inl e \<Rightarrow> Inl e
           | Inr (v, s) \<Rightarrow> Inr (v, p\<lparr>region := save (fst ct) s (region p)\<rparr>)))"

definition region_upgrade ::
  "contract list \<Rightarrow> nat \<Rightarrow> address \<Rightarrow> nat \<Rightarrow> call option \<Rightarrow> Proxy \<Rightarrow> error + retval \<times> Proxy" where
  "region_upgrade contracts now caller new_id migration p =
     (if caller \<noteq> proxy_admin p then Inl Unauthorized
      else case lookup contracts new_id of
        None \<Rightarrow> Inl UnknownImplementation
      | Some ct \<Rightarrow>
          let p1 = p\<lparr>proxy_implementation := new_id\<rparr>;
              migrated = (case migration of
                            None \<Rightarrow> Inr (RUnit, p1)
                          | Some m \<Rightarrow> region_forward ct caller m UnknownSelector p1)
          in case migrated of
               Inl e \<Rightarrow> Inl MigrationFailure
             | Inr (v, p2) \<Rightarrow>
                 Inr (RUnit, p2\<lparr>proxy_log := proxy_log p2 @
                        [\<lparr>timestamp = now, from_implementation = proxy_implementation p,
                          to_implementation = new_id, authorizer = caller\<rparr>]\<rparr>))"

definition region_transferAdmin :: "address \<Rightarrow> address \<Rightarrow> Proxy \<Rightarrow> error + retval \<times> Proxy" where
  "region_transferAdmin caller new_admin p =
     (if caller \<noteq> proxy_admin p then Inl Unauthorized
      else Inr (RUnit, p\<lparr>proxy_admin := new_admin\<rparr>))"

definition region_handle ::
  "contract list \<Rightarrow> nat \<Rightarrow> address \<Rightarrow> call \<Rightarrow> Proxy \<Rightarrow> error + retval \<times> Proxy" where
  "region_handle contracts now caller c p =
     (if is_management c \<and> caller = proxy_admin p then
        (case c of
           Upgrade new_id migration \<Rightarrow> region_upgrade contracts now caller new_id migration p
         | TransferAdmin new_admin \<Rightarrow> region_transferAdmin caller new_admin p
         | _ \<Rightarrow> Inl UnknownSelector)
      else if is_management c then
        (case lookup contracts (proxy_implementation p) of
           None \<Rightarrow> Inl Unauthorized
         | Some ct \<Rightarrow> region_forward ct caller c Unauthorized p)
      else
        (case lookup contracts (proxy_implementation p) of
           None \<Rightarrow> Inl Uninitialized
         | Some ct \<Rightarrow> region_forward ct caller c UnknownSelector p))"

definition region_execute ::
  "contract list \<Rightarrow> nat \<Rightarrow> address \<Rightarrow> call \<Rightarrow> Proxy \<Rightarrow> (error + retval) \<times> Proxy" where
  "region_execute contracts now caller c p =
     (case region_handle contracts now caller c p of
        Inl e \<Rightarrow> (Inl e, p)
      | Inr (v, p') \<Rightarrow> (Inr v, p'))"

fun region_run :: "contract list \<Rightarrow> tx list \<Rightarrow> Proxy \<Rightarrow> Proxy" where
  "region_run contracts [] p = p"
| "region_run contracts ((now, caller, c) # rest) p =
     region_run contracts rest (snd (region_execute contracts now caller c p))"

text \<open>The two contracts of the repository, and an Instance whose region was never written.\<close>

definition deployed_contracts :: "contract list" where
  "deployed_contracts = [(layout_V1, implementation_V1), (layout_V2, implementation_V2)]"

definition region_create :: "address \<Rightarrow> nat \<Rightarrow> Proxy" where
  "region_create admin impl_id =
     \<lparr> proxy_implementation = impl_id, proxy_admin = admin, proxy_log = [],
       region = (\<lambda>_. Untouched) \<rparr>"

text \<open>
  The Instance with its storage as a record is the Instance with its storage as a region,
  seen through the layout of V2, which has every field.
\<close>

definition abstraction :: "Proxy \<Rightarrow> Instance" where
  "abstraction p =
     \<lparr> active_implementation = proxy_implementation p, admin_identity = proxy_admin p,
       upgrade_log = proxy_log p, store = load layout_V2 (region p) \<rparr>"

section \<open>Auxiliary notions\<close>

text \<open>The external functions of the two contracts of the repository.\<close>

definition in_repository :: "external_function \<Rightarrow> bool" where
  "in_repository f = (\<exists>c. implementation_V1 c = Some f \<or> implementation_V2 c = Some f)"

text \<open>
  A call that runs \<^verbatim>\<open>addUser(a)\<close>: the business call itself, or an upgrade that carries it as
  its migration call.
\<close>

fun invokes_addUser :: "address \<Rightarrow> call \<Rightarrow> bool" where
  "invokes_addUser a (AddUser b) = (a = b)"
| "invokes_addUser a (Upgrade n (Some (AddUser b))) = (a = b)"
| "invokes_addUser a _ = False"

text \<open>
  A call that runs \<^verbatim>\<open>initialize()\<close>: the call itself, or an upgrade that carries it as its
  migration call.
\<close>

fun invokes_initialize :: "call \<Rightarrow> bool" where
  "invokes_initialize Initialize = True"
| "invokes_initialize (Upgrade n (Some Initialize)) = True"
| "invokes_initialize _ = False"

text \<open>The calls with the selector of \<^verbatim>\<open>upgrade\<close>.\<close>

fun is_upgrade :: "call \<Rightarrow> bool" where
  "is_upgrade (Upgrade n m) = True"
| "is_upgrade _ = False"

text \<open>The calls that mint, burn or transfer tokens.\<close>

fun moves_tokens :: "call \<Rightarrow> bool" where
  "moves_tokens (Mint to amount) = True"
| "moves_tokens (Burn amount) = True"
| "moves_tokens (BurnFrom account amount) = True"
| "moves_tokens (Transfer to amount) = True"
| "moves_tokens (TransferFrom from to amount) = True"
| "moves_tokens _ = False"

text \<open>The total supply is the sum of all balances.\<close>

definition supply_invariant :: "storage \<Rightarrow> bool" where
  "supply_invariant s = ((\<Sum>a \<in> UNIV. unat (balances s a)) = unat (totalSupply s))"

section \<open>Basic facts\<close>

lemmas library_defs =
  and_then_def returning_def view_def checked_add_def initializer_def onlyInitializing_def
  disableInitializers_def internal_transferOwnership_def Ownable_init_def onlyOwner_def
  renounceOwnership_def transferOwnership_def Pausable_init_def whenNotPaused_def whenPaused_def
  internal_pause_def internal_unpause_def ERC20_init_def ERC20Burnable_init_def
  super_beforeTokenTransfer_def internal_mint_def internal_burn_def internal_transfer_def
  internal_approve_def internal_spendAllowance_def transfer_def approve_def transferFrom_def
  increaseAllowance_def decreaseAllowance_def burn_def burnFrom_def

lemmas V1_defs = V1_constructor_def V1_initialize_def V1_pause_def V1_unpause_def
  V1_beforeTokenTransfer_def V1_mint_def

lemmas V2_defs = V2_constructor_def V2_initialize_def V2_pause_def V2_unpause_def
  V2_beforeTokenTransfer_def V2_mint_def V2_addUser_def V2_verifyUser_def


subsection \<open>From the functions of the contracts to calls through the proxy\<close>

text \<open>
  With the repository's registry, whatever a call through the proxy does to the storage was
  done by one external function of V1 or V2, run with the caller's identity: the function
  of the call itself, or of the migration call an upgrade carries. A relation between the
  storage before and after that holds for those functions therefore holds for \<open>handle\<close> and
  \<open>execute\<close>, and an invariant of theirs holds along every history.
\<close>

lemma resolve_repository:
  "resolve repository i =
     (if i = 0 then Some implementation_V1 else if i = 1 then Some implementation_V2 else None)"
  by (auto simp: resolve_def repository_def register_def nth_Cons split: nat.splits)

lemma forward_store:
  assumes "forward impl caller c missing inst = Inr (v, inst')"
  obtains f where "impl c = Some f" and "f caller (store inst) = Inr (v, store inst')"
    and "inst' = inst\<lparr>store := store inst'\<rparr>"
  using assms by (auto simp: forward_def split: option.splits sum.splits)

lemma handle_store_call:
  assumes h: "handle repository now caller c inst = Inr (v, inst')"
    and same: "R (store inst) (store inst)"
    and step: "\<And>f c' w s'.
       implementation_V1 c' = Some f \<or> implementation_V2 c' = Some f \<Longrightarrow>
       c' = c \<or> (\<exists>n. c = Upgrade n (Some c')) \<Longrightarrow>
       f caller (store inst) = Inr (w, s') \<Longrightarrow> R (store inst) s'"
  shows "R (store inst) (store inst')"
proof (cases "is_management c \<and> caller = admin_identity inst")
  case True
  show ?thesis
  proof (cases c)
    case (Upgrade n m)
    show ?thesis
    proof (cases m)
      case None
      with h True Upgrade have "store inst' = store inst"
        by (auto simp: handle_def upgrade_def Let_def split: option.splits if_splits)
      with same show ?thesis by simp
    next
      case (Some mc)
      from h True Upgrade Some obtain impl w inst2 where
        r: "resolve repository n = Some impl" and
        f: "forward impl caller mc UnknownSelector (inst\<lparr>active_implementation := n\<rparr>) = Inr (w, inst2)" and
        e: "store inst' = store inst2"
        by (auto simp: handle_def upgrade_def Let_def split: option.splits if_splits sum.splits)
      from f obtain g where g: "impl mc = Some g" "g caller (store inst) = Inr (w, store inst2)"
        by (auto elim!: forward_store)
      from r have "impl = implementation_V1 \<or> impl = implementation_V2"
        by (auto simp: resolve_repository split: if_splits)
      with g have "implementation_V1 mc = Some g \<or> implementation_V2 mc = Some g" by auto
      from step [OF this _ g(2)] Upgrade Some e show ?thesis by simp
    qed
  next
    case (TransferAdmin a)
    with h True have "store inst' = store inst"
      by (auto simp: handle_def transferAdmin_def split: if_splits)
    with same show ?thesis by simp
  qed (use True in auto)
next
  case False
  with h obtain impl missing where
    r: "resolve repository (active_implementation inst) = Some impl" and
    f: "forward impl caller c missing inst = Inr (v, inst')"
    by (auto simp: handle_def split: option.splits if_splits)
  from f obtain g where g: "impl c = Some g" "g caller (store inst) = Inr (v, store inst')"
    by (auto elim!: forward_store)
  from r have "impl = implementation_V1 \<or> impl = implementation_V2"
    by (auto simp: resolve_repository split: if_splits)
  with g have "implementation_V1 c = Some g \<or> implementation_V2 c = Some g" by auto
  from step [OF this _ g(2)] show ?thesis by simp
qed

lemma handle_store:
  assumes h: "handle repository now caller c inst = Inr (v, inst')"
    and same: "R (store inst) (store inst)"
    and step: "\<And>f w s'. in_repository f \<Longrightarrow> f caller (store inst) = Inr (w, s') \<Longrightarrow> R (store inst) s'"
  shows "R (store inst) (store inst')"
  using h same
proof (rule handle_store_call)
  fix f c' w s'
  assume "implementation_V1 c' = Some f \<or> implementation_V2 c' = Some f"
    and "f caller (store inst) = Inr (w, s')"
  then show "R (store inst) s'"
    using step by (auto simp: in_repository_def)
qed

lemma execute_store:
  assumes same: "R (store inst) (store inst)"
    and step: "\<And>f w s'. in_repository f \<Longrightarrow> f caller (store inst) = Inr (w, s') \<Longrightarrow> R (store inst) s'"
  shows "R (store inst) (store (snd (execute repository now caller c inst)))"
proof (cases "handle repository now caller c inst")
  case (Inl e)
  then show ?thesis using same by (simp add: execute_def)
next
  case (Inr p)
  obtain v inst' where p: "p = (v, inst')" by (cases p)
  from handle_store [where R = R, OF Inr [unfolded p] same step]
  show ?thesis using Inr p by (simp add: execute_def)
qed

lemma run_invariant:
  assumes init: "P (store inst)"
    and step: "\<And>f caller w s s'. in_repository f \<Longrightarrow> P s \<Longrightarrow> f caller s = Inr (w, s') \<Longrightarrow> P s'"
  shows "P (store (run repository txs inst))"
  using init
proof (induction txs arbitrary: inst)
  case Nil
  then show ?case by simp
next
  case (Cons tx txs)
  obtain now caller c where tx: "tx = (now, caller, c)" by (cases tx)
  have "P (store (snd (execute repository now caller c inst)))"
    using execute_store [where R = "\<lambda>s s'. P s'" and inst = inst] Cons.prems step
    by blast
  from Cons.IH [OF this] show ?case by (simp add: tx)
qed


subsection \<open>What the functions of the contracts preserve\<close>

lemma in_repository_initialized:
  "in_repository f \<Longrightarrow> initialized s \<noteq> 0 \<Longrightarrow> f caller s = Inr (w, s') \<Longrightarrow> initialized s' \<noteq> 0"
  unfolding in_repository_def
  apply (elim exE)
  subgoal for c
    by (cases c) (auto simp: library_defs V1_defs V2_defs Let_def split: if_splits sum.splits)
  done

lemma in_repository_whitelist:
  "in_repository f \<Longrightarrow> whitelistedAddresses s a \<Longrightarrow> f caller s = Inr (w, s') \<Longrightarrow>
   whitelistedAddresses s' a"
  unfolding in_repository_def
  apply (elim exE)
  subgoal for c
    by (cases c) (auto simp: library_defs V1_defs V2_defs Let_def split: if_splits sum.splits)
  done

lemma table_whitelist_false:
  assumes "implementation_V1 c = Some f \<or> implementation_V2 c = Some f"
    and "c \<noteq> AddUser a"
    and "\<not> whitelistedAddresses s a"
    and "f caller s = Inr (w, s')"
  shows "\<not> whitelistedAddresses s' a"
  using assms
  by (cases c) (auto simp: library_defs V1_defs V2_defs Let_def split: if_splits sum.splits)

lemma table_paused_frozen:
  assumes "in_repository f" and "paused s" and "f caller s = Inr (w, s')"
  shows "balances s' = balances s \<and> totalSupply s' = totalSupply s"
  using assms unfolding in_repository_def
  apply (elim exE)
  subgoal for c
    by (cases c) (auto simp: library_defs V1_defs V2_defs Let_def split: if_splits sum.splits)
  done

lemma table_paused_reverts:
  assumes "implementation_V1 c = Some f \<or> implementation_V2 c = Some f"
    and "moves_tokens c" and "paused s"
  shows "\<exists>e. f caller s = Inl e"
  using assms
  by (cases c) (auto simp: library_defs V1_defs V2_defs Let_def split: if_splits sum.splits)

lemma table_pause_owner:
  assumes "in_repository f" and "initialized s \<noteq> 0" and "f caller s = Inr (w, s')"
    and "paused s' \<noteq> paused s"
  shows "caller = owner s"
proof -
  from assms(2) have "initialized s < 1 \<longleftrightarrow> False" by (simp add: word_less_1)
  with assms(1,3,4) show ?thesis
    unfolding in_repository_def
    apply (elim exE)
    subgoal for c
      by (cases c) (auto simp: library_defs V1_defs V2_defs Let_def split: if_splits sum.splits)
    done
qed


subsection \<open>The total supply\<close>

lemma sum_balances_update:
  fixes f :: "address \<Rightarrow> uint256"
  shows "(\<Sum>a \<in> UNIV. unat ((f(x := v)) a)) + unat (f x) = (\<Sum>a \<in> UNIV. unat (f a)) + unat v"
proof -
  have "(\<Sum>a \<in> UNIV. unat ((f(x := v)) a)) = unat v + (\<Sum>a \<in> UNIV - {x}. unat ((f(x := v)) a))"
    by (subst sum.remove [of UNIV x]) simp_all
  moreover have "(\<Sum>a \<in> UNIV. unat (f a)) = unat (f x) + (\<Sum>a \<in> UNIV - {x}. unat (f a))"
    by (subst sum.remove [of UNIV x]) simp_all
  moreover have "(\<Sum>a \<in> UNIV - {x}. unat ((f(x := v)) a)) = (\<Sum>a \<in> UNIV - {x}. unat (f a))"
    by (rule sum.cong) simp_all
  ultimately show ?thesis by simp
qed

lemma balance_le_sum:
  fixes f :: "address \<Rightarrow> uint256"
  shows "unat (f x) \<le> (\<Sum>a \<in> UNIV. unat (f a))"
  by (rule member_le_sum) simp_all

lemma two_balances_le_sum:
  fixes f :: "address \<Rightarrow> uint256"
  assumes "x \<noteq> y"
  shows "unat (f x) + unat (f y) \<le> (\<Sum>a \<in> UNIV. unat (f a))"
proof -
  have "(\<Sum>a \<in> UNIV. unat (f a)) = unat (f x) + (\<Sum>a \<in> UNIV - {x}. unat (f a))"
    by (subst sum.remove [of UNIV x]) simp_all
  moreover have "unat (f y) \<le> (\<Sum>a \<in> UNIV - {x}. unat (f a))"
    using assms by (intro member_le_sum) simp_all
  ultimately show ?thesis by simp
qed

lemma mint_supply:
  assumes "supply_invariant s" and "internal_mint h account amount s = Inr s'"
    and hook: "\<And>a b n s s'. h a b n s = Inr s' \<Longrightarrow> s' = s"
  shows "supply_invariant s'"
proof -
  from assms(2) obtain s1 where h1: "h 0 account amount s = Inr s1"
    by (auto simp: internal_mint_def and_then_def split: if_splits sum.splits)
  with hook have s1: "s1 = s" by blast
  from assms(2) h1 s1 have fit: "unat (totalSupply s) + unat amount < 2 ^ 256"
    and s': "s' = s\<lparr>totalSupply := totalSupply s + amount,
                    balances := (balances s)(account := balances s account + amount)\<rparr>"
    by (auto simp: internal_mint_def and_then_def checked_add_def split: if_splits)
  have le: "unat (balances s account) \<le> unat (totalSupply s)"
    using balance_le_sum [of "balances s" account] assms(1) by (simp add: supply_invariant_def)
  have t: "unat (totalSupply s + amount) = unat (totalSupply s) + unat amount"
    using fit by (simp add: unat_add_lem [THEN iffD1])
  have b: "unat (balances s account + amount) = unat (balances s account) + unat amount"
    using fit le by (simp add: unat_add_lem [THEN iffD1])
  from sum_balances_update [of "balances s" account "balances s account + amount"] assms(1)
  show ?thesis by (simp add: supply_invariant_def s' t b)
qed

lemma burn_supply:
  assumes "supply_invariant s" and "internal_burn h account amount s = Inr s'"
    and hook: "\<And>a b n s s'. h a b n s = Inr s' \<Longrightarrow> s' = s"
  shows "supply_invariant s'"
proof -
  from assms(2) obtain s1 where h1: "h account 0 amount s = Inr s1"
    by (auto simp: internal_burn_def and_then_def split: if_splits sum.splits)
  with hook have s1: "s1 = s" by blast
  from assms(2) h1 s1 have enough: "amount \<le> balances s account"
    and s': "s' = s\<lparr>balances := (balances s)(account := balances s account - amount),
                    totalSupply := totalSupply s - amount\<rparr>"
    by (auto simp: internal_burn_def and_then_def Let_def split: if_splits)
  have le: "unat (balances s account) \<le> unat (totalSupply s)"
    using balance_le_sum [of "balances s" account] assms(1) by (simp add: supply_invariant_def)
  from enough have a: "unat amount \<le> unat (balances s account)" by (simp add: word_le_nat_alt)
  have b: "unat (balances s account - amount) = unat (balances s account) - unat amount"
    using enough by (simp add: unat_sub)
  have "amount \<le> totalSupply s" using a le by (simp add: word_le_nat_alt)
  then have t: "unat (totalSupply s - amount) = unat (totalSupply s) - unat amount"
    by (simp add: unat_sub)
  from sum_balances_update [of "balances s" account "balances s account - amount"] assms(1) a le
  show ?thesis by (simp add: supply_invariant_def s' t b)
qed

lemma transfer_supply:
  assumes "supply_invariant s" and "internal_transfer h from to amount s = Inr s'"
    and hook: "\<And>a b n s s'. h a b n s = Inr s' \<Longrightarrow> s' = s"
  shows "supply_invariant s'"
proof -
  from assms(2) obtain s1 where h1: "h from to amount s = Inr s1"
    by (auto simp: internal_transfer_def and_then_def split: if_splits sum.splits)
  with hook have s1: "s1 = s" by blast
  from assms(2) h1 s1 have enough: "amount \<le> balances s from"
    and s': "s' = s\<lparr>balances := ((balances s)(from := balances s from - amount))
                (to := ((balances s)(from := balances s from - amount)) to + amount)\<rparr>"
    by (auto simp: internal_transfer_def and_then_def Let_def split: if_splits)
  from enough have a: "unat amount \<le> unat (balances s from)" by (simp add: word_le_nat_alt)
  have b: "unat (balances s from - amount) = unat (balances s from) - unat amount"
    using enough by (simp add: unat_sub)
  show ?thesis
  proof (cases "from = to")
    case True
    then have "balances s' = balances s" by (simp add: s' fun_eq_iff)
    moreover have "totalSupply s' = totalSupply s" by (simp add: s')
    ultimately show ?thesis using assms(1) by (simp add: supply_invariant_def)
  next
    case False
    let ?f = "(balances s)(from := balances s from - amount)"
    have "unat (balances s from) + unat (balances s to) \<le> unat (totalSupply s)"
      using two_balances_le_sum [OF False, of "balances s"] assms(1)
      by (simp add: supply_invariant_def)
    moreover have "unat (totalSupply s) < 2 ^ LENGTH(256)" by (rule unsigned_less)
    ultimately have c: "unat (balances s to + amount) = unat (balances s to) + unat amount"
      using a by (simp add: unat_add_lem [THEN iffD1])
    have 1: "(\<Sum>a \<in> UNIV. unat (?f a)) + unat (balances s from) =
        (\<Sum>a \<in> UNIV. unat (balances s a)) + (unat (balances s from) - unat amount)"
      using sum_balances_update [of "balances s" "from" "balances s from - amount"] by (simp add: b)
    have 2: "(\<Sum>a \<in> UNIV. unat ((?f(to := ?f to + amount)) a)) + unat (balances s to) =
        (\<Sum>a \<in> UNIV. unat (?f a)) + (unat (balances s to) + unat amount)"
      using sum_balances_update [of ?f to "?f to + amount"] False by (simp add: c)
    from 1 2 a assms(1) show ?thesis
      by (simp add: supply_invariant_def s')
  qed
qed


lemma supply_invariant_updates [simp]:
  "supply_invariant (s\<lparr>initialized := i\<rparr>) = supply_invariant s"
  "supply_invariant (s\<lparr>initializing := b\<rparr>) = supply_invariant s"
  "supply_invariant (s\<lparr>allowances := al\<rparr>) = supply_invariant s"
  "supply_invariant (s\<lparr>name := nm\<rparr>) = supply_invariant s"
  "supply_invariant (s\<lparr>symbol := sy\<rparr>) = supply_invariant s"
  "supply_invariant (s\<lparr>paused := p\<rparr>) = supply_invariant s"
  "supply_invariant (s\<lparr>owner := ow\<rparr>) = supply_invariant s"
  "supply_invariant (s\<lparr>whitelistedAddresses := wl\<rparr>) = supply_invariant s"
  by (simp_all add: supply_invariant_def)

lemma hooks_keep_storage:
  "V1_beforeTokenTransfer a b n s = Inr s' \<Longrightarrow> s' = s"
  "V2_beforeTokenTransfer a b n s = Inr s' \<Longrightarrow> s' = s"
  by (auto simp: V1_beforeTokenTransfer_def V2_beforeTokenTransfer_def whenNotPaused_def
      super_beforeTokenTransfer_def split: if_splits)

lemma spendAllowance_supply:
  "supply_invariant s \<Longrightarrow> internal_spendAllowance holder spender amount s = Inr s1 \<Longrightarrow>
   supply_invariant s1"
  by (auto simp: internal_spendAllowance_def internal_approve_def Let_def split: if_splits)

lemmas token_supply =
  mint_supply [where h = V1_beforeTokenTransfer, OF _ _ hooks_keep_storage(1)]
  mint_supply [where h = V2_beforeTokenTransfer, OF _ _ hooks_keep_storage(2)]
  burn_supply [where h = V1_beforeTokenTransfer, OF _ _ hooks_keep_storage(1)]
  burn_supply [where h = V2_beforeTokenTransfer, OF _ _ hooks_keep_storage(2)]
  transfer_supply [where h = V1_beforeTokenTransfer, OF _ _ hooks_keep_storage(1)]
  transfer_supply [where h = V2_beforeTokenTransfer, OF _ _ hooks_keep_storage(2)]

lemma in_repository_supply:
  assumes "in_repository f" and "supply_invariant s" and "f caller s = Inr (w, s')"
  shows "supply_invariant s'"
  using assms unfolding in_repository_def
  apply (elim exE)
  subgoal for c
    by (cases c)
      (auto simp: returning_def view_def and_then_def checked_add_def
        V1_initialize_def V2_initialize_def initializer_def onlyInitializing_def ERC20_init_def
        ERC20Burnable_init_def Pausable_init_def Ownable_init_def internal_transferOwnership_def
        V1_pause_def V2_pause_def V1_unpause_def V2_unpause_def onlyOwner_def internal_pause_def
        internal_unpause_def whenNotPaused_def whenPaused_def V1_mint_def V2_mint_def
        V2_addUser_def transfer_def approve_def transferFrom_def increaseAllowance_def
        decreaseAllowance_def burn_def burnFrom_def renounceOwnership_def transferOwnership_def
        internal_approve_def Let_def
        split: if_splits sum.splits
        dest: token_supply token_supply [OF spendAllowance_supply])
  done

subsection \<open>The active implementation\<close>

lemma handle_active:
  assumes "handle repository now caller c inst = Inr (v, inst')"
    and "active_implementation inst < 2"
  shows "active_implementation inst' < 2"
  using assms
  by (cases c)
    (auto simp: handle_def forward_def upgrade_def transferAdmin_def resolve_repository Let_def
      split: option.splits sum.splits if_splits)

lemma run_active:
  "active_implementation inst < 2 \<Longrightarrow> active_implementation (run repository txs inst) < 2"
proof (induction txs arbitrary: inst)
  case Nil
  then show ?case by simp
next
  case (Cons tx txs)
  obtain now caller c where tx: "tx = (now, caller, c)" by (cases tx)
  have "active_implementation (snd (execute repository now caller c inst)) < 2"
    using handle_active [of now caller c inst] Cons.prems
    by (auto simp: execute_def split: sum.splits)
  from Cons.IH [OF this] show ?case by (simp add: tx)
qed

lemma execute_business_active:
  assumes "\<not> is_management c"
  shows "active_implementation (snd (execute repository now caller c inst)) =
         active_implementation inst"
  using assms
  by (auto simp: execute_def handle_def forward_def split: sum.splits option.splits)

lemma run_business_active:
  assumes "\<forall>tx \<in> set txs. \<not> is_management (snd (snd tx))"
  shows "active_implementation (run repository txs inst) = active_implementation inst"
  using assms
proof (induction txs arbitrary: inst)
  case Nil
  then show ?case by simp
next
  case (Cons tx txs)
  obtain now caller c where tx: "tx = (now, caller, c)" by (cases tx)
  with Cons show ?case by (simp add: execute_business_active)
qed


subsection \<open>Single calls through the proxy\<close>

lemma first_initialize:
  "execute repository now deployer Initialize (create admin V1_id) =
     (Inr RUnit, (create admin V1_id)\<lparr>store := blank\<lparr>initialized := 1, name := ''ERC20Upgradable'',
        symbol := ''EUC'', owner := deployer\<rparr>\<rparr>)"
  by (simp add: execute_def handle_def forward_def resolve_repository create_def V1_id_def
      library_defs V1_defs blank_def)

lemma deployProxy_repository:
  "deployProxy repository now deployer admin =
     Inr ((create admin V1_id)\<lparr>store := blank\<lparr>initialized := 1, name := ''ERC20Upgradable'',
        symbol := ''EUC'', owner := deployer\<rparr>\<rparr>)"
  by (simp add: deployProxy_def handle_def forward_def resolve_repository create_def V1_id_def
      library_defs V1_defs blank_def)

lemma initialize_again:
  assumes "initialized (store inst) \<noteq> 0" and "active_implementation inst < 2"
  shows "execute repository now caller Initialize inst = (Inl AlreadyInitialized, inst)"
proof -
  have "initialized (store inst) < 1 \<longleftrightarrow> False"
    using assms by (simp add: word_less_1)
  moreover have "active_implementation inst = 0 \<or> active_implementation inst = 1"
    using assms by auto
  ultimately show ?thesis
    by (auto simp: execute_def handle_def forward_def resolve_repository returning_def
        V1_initialize_def V2_initialize_def initializer_def
        split: option.splits sum.splits)
qed

lemma mint_V1_call:
  assumes "active_implementation inst = V1_id"
  shows "execute repository now caller (Mint to amount) inst =
     (if to = 0 then (Inl ZeroAddress, inst)
      else if paused (store inst) then (Inl EnforcedPause, inst)
      else if unat (totalSupply (store inst)) + unat amount < 2 ^ 256
      then (Inr RUnit, inst\<lparr>store := (store inst)\<lparr>
              totalSupply := totalSupply (store inst) + amount,
              balances := (balances (store inst))(to := balances (store inst) to + amount)\<rparr>\<rparr>)
      else (Inl ArithmeticOverflow, inst))"
  using assms
  by (simp add: execute_def handle_def forward_def resolve_repository V1_id_def
      returning_def V1_mint_def internal_mint_def V1_beforeTokenTransfer_def whenNotPaused_def
      super_beforeTokenTransfer_def and_then_def checked_add_def)

lemma mint_V2_call:
  assumes "active_implementation inst = V2_id"
  shows "execute repository now caller (Mint to amount) inst =
     (if \<not> whitelistedAddresses (store inst) to then (Inl RequireFailed, inst)
      else if to = 0 then (Inl ZeroAddress, inst)
      else if paused (store inst) then (Inl EnforcedPause, inst)
      else if unat (totalSupply (store inst)) + unat amount < 2 ^ 256
      then (Inr RUnit, inst\<lparr>store := (store inst)\<lparr>
              totalSupply := totalSupply (store inst) + amount,
              balances := (balances (store inst))(to := balances (store inst) to + amount)\<rparr>\<rparr>)
      else (Inl ArithmeticOverflow, inst))"
  using assms
  by (simp add: execute_def handle_def forward_def resolve_repository V2_id_def
      returning_def V2_mint_def V2_verifyUser_def internal_mint_def V2_beforeTokenTransfer_def
      whenNotPaused_def super_beforeTokenTransfer_def and_then_def checked_add_def)

lemma addUser_call:
  assumes "active_implementation inst = V2_id"
  shows "execute repository now caller (AddUser a) inst =
     (if owner (store inst) \<noteq> caller then (Inl CallerIsNotOwner, inst)
      else (Inr RUnit, inst\<lparr>store := (store inst)\<lparr>
              whitelistedAddresses := (whitelistedAddresses (store inst))(a := True)\<rparr>\<rparr>))"
  using assms
  by (simp add: execute_def handle_def forward_def resolve_repository V2_id_def
      returning_def V2_addUser_def onlyOwner_def)

lemma verifyUser_call:
  "execute repository now caller (VerifyUser a) inst =
     (if active_implementation inst = V2_id
      then Inr (RBool (whitelistedAddresses (store inst) a))
      else if active_implementation inst = V1_id then Inl UnknownSelector else Inl Uninitialized,
      inst)"
  by (simp add: execute_def handle_def forward_def resolve_repository V1_id_def V2_id_def
      view_def V2_verifyUser_def)

lemma pause_call:
  assumes "active_implementation inst < 2"
  shows "execute repository now caller Pause inst =
     (if owner (store inst) \<noteq> caller then (Inl CallerIsNotOwner, inst)
      else if paused (store inst) then (Inl EnforcedPause, inst)
      else (Inr RUnit, inst\<lparr>store := (store inst)\<lparr>paused := True\<rparr>\<rparr>))"
proof -
  from assms have "active_implementation inst = 0 \<or> active_implementation inst = 1" by auto
  then show ?thesis
    by (auto simp: execute_def handle_def forward_def resolve_repository returning_def
        V1_pause_def V2_pause_def onlyOwner_def internal_pause_def whenNotPaused_def)
qed

lemma unpause_call:
  assumes "active_implementation inst < 2"
  shows "execute repository now caller Unpause inst =
     (if owner (store inst) \<noteq> caller then (Inl CallerIsNotOwner, inst)
      else if \<not> paused (store inst) then (Inl ExpectedPause, inst)
      else (Inr RUnit, inst\<lparr>store := (store inst)\<lparr>paused := False\<rparr>\<rparr>))"
proof -
  from assms have "active_implementation inst = 0 \<or> active_implementation inst = 1" by auto
  then show ?thesis
    by (auto simp: execute_def handle_def forward_def resolve_repository returning_def
        V1_unpause_def V2_unpause_def onlyOwner_def internal_unpause_def whenPaused_def)
qed

lemma no_clash:
  "is_management c \<Longrightarrow> implementation_V1 c = None \<and> implementation_V2 c = None"
  by (cases c) simp_all

lemma management_call:
  assumes "is_management c"
  shows "execute repository now caller c inst =
     (if caller \<noteq> admin_identity inst then (Inl Unauthorized, inst)
      else case handle repository now caller c inst of
             Inl e \<Rightarrow> (Inl e, inst) | Inr (v, inst') \<Rightarrow> (Inr v, inst'))"
  using assms no_clash [OF assms]
  by (auto simp: execute_def handle_def forward_def resolve_repository split: option.splits)

lemma upgrade_call:
  "execute repository now caller (Upgrade n None) inst =
     (if caller \<noteq> admin_identity inst then (Inl Unauthorized, inst)
      else if n < 2
      then (Inr RUnit, inst\<lparr>active_implementation := n,
              upgrade_log := upgrade_log inst @
                [\<lparr>timestamp = now, from_implementation = active_implementation inst,
                  to_implementation = n, authorizer = caller\<rparr>]\<rparr>)
      else (Inl UnknownImplementation, inst))"
  by (auto simp: management_call handle_def upgrade_def resolve_repository Let_def)

lemma transferAdmin_call:
  "execute repository now caller (TransferAdmin a) inst =
     (if caller \<noteq> admin_identity inst then (Inl Unauthorized, inst)
      else (Inr RUnit, inst\<lparr>admin_identity := a\<rparr>))"
  by (auto simp: management_call handle_def transferAdmin_def)


text \<open>Rules that evaluate a history on the Instance of the deploy script.\<close>

lemmas evaluate = first_initialize [unfolded create_def V1_id_def blank_def] deployProxy_repository mint_V1_call mint_V2_call upgrade_call
  transferAdmin_call addUser_call
  verifyUser_call create_def V1_id_def V2_id_def upgradeProxy_def blank_def

lemma deployed_instance:
  "run repository [(0, 1, Initialize)] (create 2 V1_id) =
     \<lparr>active_implementation = 0, admin_identity = 2, upgrade_log = [],
      store = blank\<lparr>initialized := 1, name := ''ERC20Upgradable'', symbol := ''EUC'',
                     owner := 1\<rparr>\<rparr>"
  by (simp add: first_initialize) (simp add: create_def V1_id_def)


subsection \<open>The total supply on the Instance of the deploy script\<close>

lemma blank_supply: "supply_invariant blank"
  by (simp add: supply_invariant_def blank_def)

lemma reachable_supply:
  assumes "deployProxy repository t0 deployer admin = Inr inst0"
  shows "supply_invariant (store (run repository txs inst0))"
proof (rule run_invariant)
  from assms show "supply_invariant (store inst0)"
    using blank_supply by (auto simp: deployProxy_repository)
qed (rule in_repository_supply)

lemma reachable_balance_le_supply:
  assumes "deployProxy repository t0 deployer admin = Inr inst0"
  shows "balances (store (run repository txs inst0)) a \<le> totalSupply (store (run repository txs inst0))"
  using reachable_supply [OF assms, of txs] balance_le_sum [of "balances (store (run repository txs inst0))" a]
  by (simp add: supply_invariant_def word_le_nat_alt)

section \<open>One-time initialisation\<close>

lemma invokes_initialize_iff:
  "invokes_initialize c \<longleftrightarrow> c = Initialize \<or> (\<exists>n. c = Upgrade n (Some Initialize))"
  by (induction c rule: invokes_initialize.induct) auto

lemma table_uninitialized:
  assumes "implementation_V1 c = Some f \<or> implementation_V2 c = Some f"
    and "c \<noteq> Initialize"
    and "f caller s = Inr (w, s')"
  shows "initialized s' = initialized s \<and> initializing s' = initializing s"
  using assms
  by (cases c) (auto simp: library_defs V1_defs V2_defs Let_def split: if_splits sum.splits)

lemma execute_uninitialized:
  assumes "\<not> invokes_initialize c"
    and "initialized (store inst) = 0 \<and> \<not> initializing (store inst)"
  shows "initialized (store (snd (execute repository now caller c inst))) = 0 \<and>
         \<not> initializing (store (snd (execute repository now caller c inst)))"
proof (cases "handle repository now caller c inst")
  case (Inl e)
  then show ?thesis using assms(2) by (simp add: execute_def)
next
  case (Inr p)
  obtain v inst' where p: "p = (v, inst')" by (cases p)
  have "initialized (store inst') = 0 \<and> \<not> initializing (store inst')"
  proof (rule handle_store_call [where R = "\<lambda>s s'. initialized s' = 0 \<and> \<not> initializing s'",
        OF Inr [unfolded p]])
    show "initialized (store inst) = 0 \<and> \<not> initializing (store inst)" by (rule assms(2))
  next
    fix f c' w s'
    assume t: "implementation_V1 c' = Some f \<or> implementation_V2 c' = Some f"
      and c': "c' = c \<or> (\<exists>n. c = Upgrade n (Some c'))"
      and r: "f caller (store inst) = Inr (w, s')"
    from c' assms(1) have "c' \<noteq> Initialize" by (auto simp: invokes_initialize_iff)
    from table_uninitialized [OF t this r] assms(2)
    show "initialized s' = 0 \<and> \<not> initializing s'" by simp
  qed
  then show ?thesis using Inr p by (simp add: execute_def)
qed

lemma run_uninitialized:
  assumes "\<forall>tx \<in> set txs. \<not> invokes_initialize (snd (snd tx))"
    and "initialized (store inst) = 0 \<and> \<not> initializing (store inst)"
  shows "initialized (store (run repository txs inst)) = 0 \<and>
         \<not> initializing (store (run repository txs inst))"
  using assms
proof (induction txs arbitrary: inst)
  case Nil
  then show ?case by simp
next
  case (Cons tx txs)
  obtain now caller c where tx: "tx = (now, caller, c)" by (cases tx)
  from Cons.prems tx have "\<not> invokes_initialize c" by simp
  from execute_uninitialized [OF this Cons.prems(2)]
  have "initialized (store (snd (execute repository now caller c inst))) = 0 \<and>
        \<not> initializing (store (snd (execute repository now caller c inst)))" .
  with Cons.IH [of "snd (execute repository now caller c inst)"] Cons.prems(1)
  show ?case by (simp add: tx)
qed

lemma initialize_call:
  assumes "active_implementation inst < 2"
    and "initialized (store inst) = 0" and "\<not> initializing (store inst)"
  shows "execute repository now caller Initialize inst =
     (Inr RUnit, inst\<lparr>store := (store inst)\<lparr>initialized := 1, initializing := False,
        name := ''ERC20Upgradable'', symbol := ''EUC'', paused := False, owner := caller\<rparr>\<rparr>)"
proof -
  from assms(1) have "active_implementation inst = 0 \<or> active_implementation inst = 1" by auto
  then show ?thesis
    using assms(2,3)
    by (auto simp: execute_def handle_def forward_def resolve_repository library_defs
        V1_initialize_def V2_initialize_def)
qed

text \<open>
  Claim C1. Take any Instance created on V1 or on V2, and any history of calls before its
  first \<^verbatim>\<open>initialize\<close> (by any callers, upgrades between V1 and V2 included). The first
  \<^verbatim>\<open>initialize\<close> call, whoever makes it and whichever of the two implementations is active,
  succeeds; after it, whatever history of calls follows, every further \<^verbatim>\<open>initialize\<close> call
  by any caller fails with \<open>AlreadyInitialized\<close> and leaves the Instance exactly as it was
  before that call.
\<close>

theorem initialize_once:
  assumes "impl_id = V1_id \<or> impl_id = V2_id"
    and "\<forall>tx \<in> set before. \<not> invokes_initialize (snd (snd tx))"
  shows "\<exists>inst1.
     execute repository t0 deployer Initialize (run repository before (create admin impl_id)) =
       (Inr RUnit, inst1) \<and>
     (\<forall>txs now caller.
        execute repository now caller Initialize (run repository txs inst1) =
          (Inl AlreadyInitialized, run repository txs inst1))"
proof -
  let ?inst = "run repository before (create admin impl_id)"
  let ?inst1 = "?inst\<lparr>store := (store ?inst)\<lparr>initialized := 1, initializing := False,
        name := ''ERC20Upgradable'', symbol := ''EUC'', paused := False, owner := deployer\<rparr>\<rparr>"
  from assms(1) have "active_implementation (create admin impl_id) < 2"
    by (auto simp: create_def V1_id_def V2_id_def)
  then have a: "active_implementation ?inst < 2" by (rule run_active)
  have "initialized (store (create admin impl_id)) = 0 \<and>
        \<not> initializing (store (create admin impl_id))"
    by (simp add: create_def blank_def)
  with assms(2) have u: "initialized (store ?inst) = 0 \<and> \<not> initializing (store ?inst)"
    by (rule run_uninitialized)
  with a have first: "execute repository t0 deployer Initialize ?inst = (Inr RUnit, ?inst1)"
    by (simp add: initialize_call)
  have a1: "active_implementation ?inst1 < 2" using a by simp
  have i1: "initialized (store ?inst1) \<noteq> 0" by simp
  have "execute repository now caller Initialize (run repository txs ?inst1) =
          (Inl AlreadyInitialized, run repository txs ?inst1)" for txs now caller
  proof (rule initialize_again)
    show "initialized (store (run repository txs ?inst1)) \<noteq> 0"
      using i1 by (rule run_invariant) (rule in_repository_initialized)
    show "active_implementation (run repository txs ?inst1) < 2"
      using a1 by (rule run_active)
  qed
  with first show ?thesis by blast
qed

theorem initialize_once_witness:
  "(V2_id = V1_id \<or> V2_id = V2_id) \<and>
   fst (execute repository 3 1 Initialize
          (run repository [(1, 5, Mint 7 100), (2, 2, Upgrade V1_id None), (2, 2, upgradeProxy)]
             (create 2 V2_id))) = Inr RUnit \<and>
   owner (store (snd (execute repository 3 1 Initialize
          (run repository [(1, 5, Mint 7 100), (2, 2, Upgrade V1_id None), (2, 2, upgradeProxy)]
             (create 2 V2_id))))) = 1 \<and>
   fst (execute repository 5 1 Initialize
          (run repository [(4, 1, Pause)]
             (snd (execute repository 3 1 Initialize
                (run repository [(1, 5, Mint 7 100), (2, 2, Upgrade V1_id None), (2, 2, upgradeProxy)]
                   (create 2 V2_id)))))) = Inl AlreadyInitialized"
proof -
  let ?before = "[(1, 5, Mint 7 100), (2, 2, Upgrade V1_id None), (2, 2, upgradeProxy)]"
  let ?e = "execute repository 3 1 Initialize (run repository ?before (create 2 V2_id))"
  have h1: "V2_id = V1_id \<or> V2_id = V2_id" by simp
  have h2: "\<forall>tx \<in> set ?before. \<not> invokes_initialize (snd (snd tx))"
    by (simp add: upgradeProxy_def)
  from initialize_once [OF h1 h2, of 3 1 2] obtain inst1 where
    f: "?e = (Inr RUnit, inst1)" and
    again: "\<And>txs now caller. execute repository now caller Initialize (run repository txs inst1) =
          (Inl AlreadyInitialized, run repository txs inst1)"
    by blast
  have o: "owner (store (snd ?e)) = 1"
    by (simp add: evaluate initialize_call)
  from f have s: "snd ?e = inst1" and r: "fst ?e = Inr RUnit" by simp_all
  from again [of 5 1 "[(4, 1, Pause)]"]
  have "fst (execute repository 5 1 Initialize (run repository [(4, 1, Pause)] (snd ?e))) =
      Inl AlreadyInitialized"
    unfolding s by simp
  with h1 r o show ?thesis by blast
qed

subsection \<open>The implementation contracts themselves\<close>

lemma direct_run_initialized:
  assumes "impl = implementation_V1 \<or> impl = implementation_V2" and "initialized s \<noteq> 0"
  shows "initialized (direct_run impl txs s) \<noteq> 0"
  using assms(2)
proof (induction txs arbitrary: s)
  case Nil
  then show ?case by simp
next
  case (Cons tx txs)
  obtain caller c where tx: "tx = (caller, c)" by (cases tx)
  have "initialized (snd (direct_call impl caller c s)) \<noteq> 0"
  proof (cases "impl c")
    case None
    then show ?thesis using Cons.prems by (simp add: direct_call_def)
  next
    case (Some f)
    with assms(1) have "in_repository f" by (auto simp: in_repository_def)
    from in_repository_initialized [OF this Cons.prems] Some Cons.prems
    show ?thesis by (auto simp: direct_call_def split: sum.splits)
  qed
  from Cons.IH [OF this] show ?case by (simp add: tx)
qed

lemma direct_initialize_again:
  assumes "impl = implementation_V1 \<or> impl = implementation_V2" and "initialized s \<noteq> 0"
  shows "direct_call impl caller Initialize s = (Inl AlreadyInitialized, s)"
proof -
  have "initialized s < 1 \<longleftrightarrow> False"
    using assms by (simp add: word_less_1)
  with assms(1) show ?thesis
    by (auto simp: direct_call_def returning_def V1_initialize_def V2_initialize_def initializer_def)
qed


lemma in_repository_initialized_same:
  "in_repository f \<Longrightarrow> initialized s \<noteq> 0 \<Longrightarrow> f caller s = Inr (w, s') \<Longrightarrow>
   initialized s' = initialized s"
proof -
  assume a: "in_repository f" "initialized s \<noteq> 0" "f caller s = Inr (w, s')"
  from a(2) have "initialized s < 1 \<longleftrightarrow> False" by (simp add: word_less_1)
  with a show ?thesis
    unfolding in_repository_def
    apply (elim exE)
    subgoal for c
      by (cases c) (auto simp: library_defs V1_defs V2_defs Let_def split: if_splits sum.splits)
    done
qed

lemma direct_run_initialized_same:
  assumes "impl = implementation_V1 \<or> impl = implementation_V2" and "initialized s \<noteq> 0"
  shows "initialized (direct_run impl txs s) = initialized s"
  using assms(2)
proof (induction txs arbitrary: s)
  case Nil
  then show ?case by simp
next
  case (Cons tx txs)
  obtain caller c where tx: "tx = (caller, c)" by (cases tx)
  have "initialized (snd (direct_call impl caller c s)) = initialized s"
  proof (cases "impl c")
    case None
    then show ?thesis by (simp add: direct_call_def)
  next
    case (Some f)
    with assms(1) have "in_repository f" by (auto simp: in_repository_def)
    from in_repository_initialized_same [OF this Cons.prems] Some
    show ?thesis by (auto simp: direct_call_def split: sum.splits)
  qed
  with Cons.IH [of "snd (direct_call impl caller c s)"] Cons.prems show ?case by (simp add: tx)
qed

text \<open>
  Claim C8 as stated fails in its conclusion: an implementation contract does hold persistent
  state of its own. After its constructor has run, \<^verbatim>\<open>mint(7, 100)\<close> sent directly to the V1
  implementation contract succeeds, and a later \<^verbatim>\<open>balanceOf(7)\<close> sent to it returns 100.
\<close>

theorem implementation_state_counterexample:
  "V1_constructor blank = Inr (blank\<lparr>initialized := 255\<rparr>) \<and>
   fst (direct_call implementation_V1 9 (Mint 7 100) (blank\<lparr>initialized := 255\<rparr>)) = Inr RUnit \<and>
   fst (direct_call implementation_V1 3 (BalanceOf 7)
          (snd (direct_call implementation_V1 9 (Mint 7 100) (blank\<lparr>initialized := 255\<rparr>)))) =
     Inr (RUint 100)"
  by (simp add: V1_constructor_def disableInitializers_def direct_call_def returning_def view_def
      V1_mint_def internal_mint_def V1_beforeTokenTransfer_def whenNotPaused_def
      super_beforeTokenTransfer_def and_then_def checked_add_def blank_def)

text \<open>
  Claim C8, amended. The constructor of V1 and of V2 runs \<^verbatim>\<open>_disableInitializers()\<close> on the
  implementation contract's own storage, which sets the initialisation counter to 255. From
  then on, whatever calls are sent to the implementation contract directly, the counter
  stays at 255 and \<^verbatim>\<open>initialize\<close> (it takes no argument) fails for every caller with
  \<open>AlreadyInitialized\<close>, leaving that storage as it was: an implementation's own storage can
  never be initialised.
\<close>

theorem implementation_initializers_disabled:
  "\<exists>own1 own2.
     V1_constructor blank = Inr own1 \<and> V2_constructor blank = Inr own2 \<and>
     (\<forall>txs caller.
        initialized (direct_run implementation_V1 txs own1) = 255 \<and>
        direct_call implementation_V1 caller Initialize (direct_run implementation_V1 txs own1) =
          (Inl AlreadyInitialized, direct_run implementation_V1 txs own1)) \<and>
     (\<forall>txs caller.
        initialized (direct_run implementation_V2 txs own2) = 255 \<and>
        direct_call implementation_V2 caller Initialize (direct_run implementation_V2 txs own2) =
          (Inl AlreadyInitialized, direct_run implementation_V2 txs own2))"
proof -
  let ?own = "blank\<lparr>initialized := 255\<rparr>"
  have c1: "V1_constructor blank = Inr ?own" and c2: "V2_constructor blank = Inr ?own"
    by (simp_all add: V1_constructor_def V2_constructor_def disableInitializers_def blank_def)
  have i: "initialized ?own \<noteq> 0" by simp
  have "initialized (direct_run implementation_V1 txs ?own) = 255 \<and>
        direct_call implementation_V1 caller Initialize (direct_run implementation_V1 txs ?own) =
          (Inl AlreadyInitialized, direct_run implementation_V1 txs ?own)" for txs caller
    using direct_initialize_again [of implementation_V1 "direct_run implementation_V1 txs ?own" caller]
    by (simp add: direct_run_initialized_same i)
  moreover
  have "initialized (direct_run implementation_V2 txs ?own) = 255 \<and>
        direct_call implementation_V2 caller Initialize (direct_run implementation_V2 txs ?own) =
          (Inl AlreadyInitialized, direct_run implementation_V2 txs ?own)" for txs caller
    using direct_initialize_again [of implementation_V2 "direct_run implementation_V2 txs ?own" caller]
    by (simp add: direct_run_initialized_same i)
  ultimately show ?thesis using c1 c2 by blast
qed

section \<open>Minting under V1\<close>

text \<open>
  Claim C5 as stated fails: \<^verbatim>\<open>_mint\<close> rejects the zero address. On the initialised, unpaused
  Instance that the deploy script creates, \<^verbatim>\<open>mint(address(0), 100)\<close> reverts.
\<close>

theorem V1_mint_zero_address_counterexample:
  "initialized (store (snd (execute repository 0 1 Initialize (create 2 V1_id)))) = 1 \<and>
   \<not> paused (store (snd (execute repository 0 1 Initialize (create 2 V1_id)))) \<and>
   execute repository 1 3 (Mint 0 100) (snd (execute repository 0 1 Initialize (create 2 V1_id))) =
     (Inl ZeroAddress, snd (execute repository 0 1 Initialize (create 2 V1_id)))"
proof -
  note e = first_initialize [of 0 1 2]
  show ?thesis
    unfolding e
    by (simp add: execute_def handle_def forward_def resolve_repository
        create_def V1_id_def returning_def V1_mint_def internal_mint_def blank_def)
qed


text \<open>
  Claim C5, amended. Under V1 \<^verbatim>\<open>mint(to, amount)\<close> does not look at the caller: for every
  caller identity, on an initialised, unpaused Instance, if \<open>to\<close> is not the zero address and
  the total supply plus \<open>amount\<close> fits into 256 bits, the call succeeds, adds \<open>amount\<close> to the
  balance of \<open>to\<close> and to the total supply, and leaves every other balance alone. The
  addition to the total supply does not wrap around; neither does the one to the balance
  when the balance does not exceed the total supply, which holds on every Instance reached
  from the deploy script (\<open>reachable_balance_le_supply\<close>).
\<close>

theorem V1_mint_unrestricted:
  assumes "active_implementation inst = V1_id"
    and "initialized (store inst) = 1"
    and "\<not> paused (store inst)"
    and "to \<noteq> 0"
    and "unat (totalSupply (store inst)) + unat amount < 2 ^ 256"
  shows "\<exists>inst'. execute repository now caller (Mint to amount) inst = (Inr RUnit, inst') \<and>
           balances (store inst') to = balances (store inst) to + amount \<and>
           (\<forall>a. a \<noteq> to \<longrightarrow> balances (store inst') a = balances (store inst) a) \<and>
           totalSupply (store inst') = totalSupply (store inst) + amount \<and>
           unat (totalSupply (store inst')) = unat (totalSupply (store inst)) + unat amount \<and>
           (balances (store inst) to \<le> totalSupply (store inst) \<longrightarrow>
              unat (balances (store inst') to) = unat (balances (store inst) to) + unat amount)"
proof -
  have "unat (balances (store inst) to + amount) = unat (balances (store inst) to) + unat amount"
    if "balances (store inst) to \<le> totalSupply (store inst)"
  proof -
    from that have "unat (balances (store inst) to) \<le> unat (totalSupply (store inst))"
      by (simp add: word_le_nat_alt)
    with assms(5) show ?thesis by (simp add: unat_add_lem [THEN iffD1])
  qed
  with assms show ?thesis by (simp add: mint_V1_call unat_add_lem [THEN iffD1])
qed

theorem V1_mint_unrestricted_witness:
  "active_implementation (snd (execute repository 0 1 Initialize (create 2 V1_id))) = V1_id \<and>
   initialized (store (snd (execute repository 0 1 Initialize (create 2 V1_id)))) = 1 \<and>
   \<not> paused (store (snd (execute repository 0 1 Initialize (create 2 V1_id)))) \<and>
   (7 :: address) \<noteq> 0 \<and>
   unat (totalSupply (store (snd (execute repository 0 1 Initialize (create 2 V1_id))))) +
     unat (100 :: uint256) < 2 ^ 256 \<and>
   (\<exists>inst'. execute repository 5 9 (Mint 7 100)
              (snd (execute repository 0 1 Initialize (create 2 V1_id))) = (Inr RUnit, inst') \<and>
            balances (store inst') 7 = 100)"
proof -
  note e = first_initialize [of 0 1 2]
  have h: "active_implementation (snd (execute repository 0 1 Initialize (create 2 V1_id))) = V1_id"
    "initialized (store (snd (execute repository 0 1 Initialize (create 2 V1_id)))) = 1"
    "\<not> paused (store (snd (execute repository 0 1 Initialize (create 2 V1_id))))"
    "(7 :: address) \<noteq> 0"
    "unat (totalSupply (store (snd (execute repository 0 1 Initialize (create 2 V1_id))))) +
       unat (100 :: uint256) < 2 ^ 256"
    unfolding e by (simp_all add: create_def blank_def)
  from V1_mint_unrestricted [OF h, of 5 9] h show ?thesis
    unfolding e by (auto simp: blank_def)
qed

section \<open>Pausing\<close>

lemma execute_paused_reverts:
  assumes "moves_tokens c" and "paused (store inst)"
  shows "\<exists>e. fst (execute repository now caller c inst) = Inl e"
proof -
  from assms(1) have nm: "\<not> is_management c" by (cases c) simp_all
  show ?thesis
  proof (cases "resolve repository (active_implementation inst)")
    case None
    with nm show ?thesis by (simp add: execute_def handle_def)
  next
    case (Some impl)
    then have v: "impl = implementation_V1 \<or> impl = implementation_V2"
      by (auto simp: resolve_repository split: if_splits)
    show ?thesis
    proof (cases "impl c")
      case None
      with nm Some show ?thesis by (simp add: execute_def handle_def forward_def)
    next
      case f: (Some f)
      with v have "implementation_V1 c = Some f \<or> implementation_V2 c = Some f" by auto
      from table_paused_reverts [OF this assms] obtain e where "f caller (store inst) = Inl e"
        by blast
      with nm Some f show ?thesis by (simp add: execute_def handle_def forward_def)
    qed
  qed
qed


text \<open>
  Claim C9. On every Instance reached from the deploy script by any history of calls: while
  it is paused, no call changes a balance or the total supply, and every mint, burn and
  transfer call (\<^verbatim>\<open>mint\<close>, \<^verbatim>\<open>burn\<close>, \<^verbatim>\<open>burnFrom\<close>, \<^verbatim>\<open>transfer\<close>, \<^verbatim>\<open>transferFrom\<close>) reverts; and
  a call that moves the Instance between the paused and the unpaused state was made by the
  owner.
\<close>

theorem paused_freezes_balances:
  assumes "deployProxy repository t0 deployer admin = Inr inst0"
    and "inst = run repository txs inst0"
    and "execute repository now caller c inst = (r, inst')"
  shows "(paused (store inst) \<longrightarrow>
            balances (store inst') = balances (store inst) \<and>
            totalSupply (store inst') = totalSupply (store inst) \<and>
            (moves_tokens c \<longrightarrow> (\<exists>e. r = Inl e))) \<and>
         (paused (store inst') \<noteq> paused (store inst) \<longrightarrow> caller = owner (store inst))"
proof -
  from assms(3) have i': "inst' = snd (execute repository now caller c inst)"
    and r: "r = fst (execute repository now caller c inst)" by simp_all
  have frozen: "balances (store inst') = balances (store inst) \<and>
      totalSupply (store inst') = totalSupply (store inst)" if p: "paused (store inst)"
    unfolding i'
    by (rule execute_store [where R = "\<lambda>s s'. balances s' = balances s \<and> totalSupply s' = totalSupply s"])
      (auto dest: table_paused_frozen [OF _ p])
  have reverts: "\<exists>e. r = Inl e" if "paused (store inst)" "moves_tokens c"
    unfolding r using that by (intro execute_paused_reverts)
  from assms(1) have "initialized (store inst0) \<noteq> 0"
    by (auto simp: deployProxy_repository)
  then have init: "initialized (store inst) \<noteq> 0"
    unfolding assms(2) by (rule run_invariant) (rule in_repository_initialized)
  have "paused (store inst') \<noteq> paused (store inst) \<longrightarrow> caller = owner (store inst)"
    unfolding i'
    by (rule execute_store [where R = "\<lambda>s s'. paused s' \<noteq> paused s \<longrightarrow> caller = owner s"])
      (auto dest: table_pause_owner [OF _ init])
  with frozen reverts show ?thesis by blast
qed

theorem paused_freezes_balances_witness:
  "deployProxy repository 0 1 2 = Inr (snd (execute repository 0 1 Initialize (create 2 V1_id))) \<and>
   paused (store (run repository [(1, 1, Pause)]
     (snd (execute repository 0 1 Initialize (create 2 V1_id))))) \<and>
   owner (store (run repository [(1, 1, Pause)]
     (snd (execute repository 0 1 Initialize (create 2 V1_id))))) = 1 \<and>
   execute repository 2 3 (Mint 7 100)
     (run repository [(1, 1, Pause)] (snd (execute repository 0 1 Initialize (create 2 V1_id)))) =
     (Inl EnforcedPause,
      run repository [(1, 1, Pause)] (snd (execute repository 0 1 Initialize (create 2 V1_id)))) \<and>
   \<not> paused (store (snd (execute repository 3 1 Unpause
     (run repository [(1, 1, Pause)]
        (snd (execute repository 0 1 Initialize (create 2 V1_id)))))))"
proof -
  let ?d = "snd (execute repository 0 1 Initialize (create 2 V1_id))"
  let ?i = "run repository [(1, 1, Pause)] ?d"
  have h1: "deployProxy repository 0 1 2 = Inr ?d" by (simp add: evaluate)
  have i: "?i = \<lparr>active_implementation = 0, admin_identity = 2, upgrade_log = [],
      store = blank\<lparr>initialized := 1, name := ''ERC20Upgradable'', symbol := ''EUC'',
                     owner := 1, paused := True\<rparr>\<rparr>"
    by (simp add: evaluate pause_call)
  have p: "paused (store ?i)" and o: "owner (store ?i) = 1"
    by (simp_all only: i) simp_all
  have m: "execute repository 2 3 (Mint 7 100) ?i = (Inl EnforcedPause, ?i)"
    by (simp only: i) (simp add: evaluate)
  have u: "\<not> paused (store (snd (execute repository 3 1 Unpause ?i)))"
    by (simp only: i) (simp add: unpause_call)
  from paused_freezes_balances [OF h1 refl m] p
  have "balances (store ?i) = balances (store ?i)" by blast
  from paused_freezes_balances [OF h1 refl prod.collapse [symmetric], of "[(1, 1, Pause)]" 3 1 Unpause]
    p u o
  have "(1 :: address) = owner (store ?i)" by blast
  with h1 p o m u show ?thesis by blast
qed


section \<open>The whitelist of V2\<close>

lemma invokes_addUser_iff:
  "invokes_addUser a c \<longleftrightarrow> c = AddUser a \<or> (\<exists>n. c = Upgrade n (Some (AddUser a)))"
  by (induction a c rule: invokes_addUser.induct) auto

lemma execute_whitelist_false:
  assumes "\<not> invokes_addUser a c" and "\<not> whitelistedAddresses (store inst) a"
  shows "\<not> whitelistedAddresses (store (snd (execute repository now caller c inst))) a"
proof (cases "handle repository now caller c inst")
  case (Inl e)
  then show ?thesis using assms(2) by (simp add: execute_def)
next
  case (Inr p)
  obtain v inst' where p: "p = (v, inst')" by (cases p)
  have "\<not> whitelistedAddresses (store inst') a"
  proof (rule handle_store_call [where R = "\<lambda>s s'. \<not> whitelistedAddresses s' a",
        OF Inr [unfolded p]])
    show "\<not> whitelistedAddresses (store inst) a" by (rule assms(2))
  next
    fix f c' w s'
    assume t: "implementation_V1 c' = Some f \<or> implementation_V2 c' = Some f"
      and c': "c' = c \<or> (\<exists>n. c = Upgrade n (Some c'))"
      and r: "f caller (store inst) = Inr (w, s')"
    from c' assms(1) have "c' \<noteq> AddUser a" by (auto simp: invokes_addUser_iff)
    from table_whitelist_false [OF t this assms(2) r]
    show "\<not> whitelistedAddresses s' a" .
  qed
  then show ?thesis using Inr p by (simp add: execute_def)
qed

lemma run_whitelist_false:
  assumes "\<forall>tx \<in> set txs. \<not> invokes_addUser a (snd (snd tx))"
    and "\<not> whitelistedAddresses (store inst) a"
  shows "\<not> whitelistedAddresses (store (run repository txs inst)) a"
  using assms
proof (induction txs arbitrary: inst)
  case Nil
  then show ?case by simp
next
  case (Cons tx txs)
  obtain now caller c where tx: "tx = (now, caller, c)" by (cases tx)
  from Cons.prems tx have "\<not> invokes_addUser a c" by simp
  from execute_whitelist_false [OF this Cons.prems(2)]
  have "\<not> whitelistedAddresses (store (snd (execute repository now caller c inst))) a" .
  with Cons.IH [of "snd (execute repository now caller c inst)"] Cons.prems(1)
  show ?case by (simp add: tx)
qed


text \<open>
  Claim C6. Take the Instance of the deploy script and any history in which \<^verbatim>\<open>addUser(a)\<close>
  is never invoked. Immediately after a successful \<^verbatim>\<open>upgrade(V2)\<close>, \<^verbatim>\<open>verifyUser(a)\<close> returns
  false, and it keeps returning false along any further business calls as long as
  \<^verbatim>\<open>addUser(a)\<close> is not invoked.
\<close>

theorem whitelist_defaults_false:
  assumes "deployProxy repository t0 deployer admin = Inr inst0"
    and "\<forall>tx \<in> set before. \<not> invokes_addUser a (snd (snd tx))"
    and "execute repository now caller upgradeProxy (run repository before inst0) = (Inr v, inst1)"
    and "\<forall>tx \<in> set after. \<not> invokes_addUser a (snd (snd tx)) \<and> \<not> is_management (snd (snd tx))"
  shows "execute repository now' caller' (VerifyUser a) inst1 = (Inr (RBool False), inst1) \<and>
         execute repository now' caller' (VerifyUser a) (run repository after inst1) =
           (Inr (RBool False), run repository after inst1)"
proof -
  from assms(1) have "\<not> whitelistedAddresses (store inst0) a"
    by (auto simp: deployProxy_repository blank_def)
  with assms(2) have b: "\<not> whitelistedAddresses (store (run repository before inst0)) a"
    by (rule run_whitelist_false)
  from assms(3) have a1: "active_implementation inst1 = V2_id"
    and s1: "store inst1 = store (run repository before inst0)"
    by (auto simp: upgrade_call upgradeProxy_def V2_id_def split: if_splits)
  from b s1 have w1: "\<not> whitelistedAddresses (store inst1) a" by simp
  from assms(4) w1 have w2: "\<not> whitelistedAddresses (store (run repository after inst1)) a"
    by (intro run_whitelist_false) auto
  from assms(4) a1 have a2: "active_implementation (run repository after inst1) = V2_id"
    by (simp add: run_business_active)
  from a1 w1 a2 w2 show ?thesis by (simp add: verifyUser_call)
qed

theorem whitelist_defaults_false_witness:
  "deployProxy repository 0 1 2 = Inr (snd (execute repository 0 1 Initialize (create 2 V1_id))) \<and>
   fst (execute repository 2 2 upgradeProxy
     (run repository [(1, 3, Mint 7 100)]
        (snd (execute repository 0 1 Initialize (create 2 V1_id))))) = Inr RUnit \<and>
   fst (execute repository 3 4 (VerifyUser 7)
     (run repository [(1, 3, Mint 7 100), (2, 2, upgradeProxy)]
        (snd (execute repository 0 1 Initialize (create 2 V1_id))))) = Inr (RBool False) \<and>
   fst (execute repository 5 4 (VerifyUser 7)
     (run repository [(1, 3, Mint 7 100), (2, 2, upgradeProxy), (4, 1, AddUser 8)]
        (snd (execute repository 0 1 Initialize (create 2 V1_id))))) = Inr (RBool False)"
proof -
  let ?d = "snd (execute repository 0 1 Initialize (create 2 V1_id))"
  let ?e = "execute repository 2 2 upgradeProxy (run repository [(1, 3, Mint 7 100)] ?d)"
  have h1: "deployProxy repository 0 1 2 = Inr ?d" by (simp add: evaluate)
  have h2: "\<forall>tx \<in> set [(1, 3, Mint 7 100)]. \<not> invokes_addUser (7 :: address) (snd (snd tx))"
    by simp
  have f: "fst ?e = Inr RUnit" by (simp add: evaluate)
  have h3: "?e = (Inr RUnit, snd ?e)"
    by (rule prod_eqI) (simp_all only: f fst_conv snd_conv)
  have h4: "\<forall>tx \<in> set [(4, 1, AddUser 8)].
      \<not> invokes_addUser (7 :: address) (snd (snd tx)) \<and> \<not> is_management (snd (snd tx))"
    by simp
  from whitelist_defaults_false [OF h1 h2 h3 h4, of 3 4]
  have a: "fst (execute repository 3 4 (VerifyUser 7) (snd ?e)) = Inr (RBool False)" by simp
  from whitelist_defaults_false [OF h1 h2 h3 h4, of 5 4]
  have b: "fst (execute repository 5 4 (VerifyUser 7)
     (run repository [(4, 1, AddUser 8)] (snd ?e))) = Inr (RBool False)" by simp
  note facts = h1 f a b
  show ?thesis
    unfolding run.simps by (intro conjI) (rule facts [unfolded run.simps])+
qed


text \<open>
  Claim C10. Once \<^verbatim>\<open>verifyUser(a)\<close> has returned true, the whitelist entry of \<open>a\<close> stays
  set along every history of calls by any callers, and \<^verbatim>\<open>verifyUser(a)\<close> returns true
  whenever V2 is the active implementation; \<^verbatim>\<open>verifyUser\<close> never changes the Instance.
\<close>

theorem whitelist_monotone:
  assumes "execute repository now caller (VerifyUser a) inst = (Inr (RBool True), inst1)"
  shows "inst1 = inst \<and>
         (\<forall>txs now' caller'.
            whitelistedAddresses (store (run repository txs inst)) a \<and>
            snd (execute repository now' caller' (VerifyUser a) (run repository txs inst)) =
              run repository txs inst \<and>
            (active_implementation (run repository txs inst) = V2_id \<longrightarrow>
               fst (execute repository now' caller' (VerifyUser a) (run repository txs inst)) =
                 Inr (RBool True)))"
proof -
  from assms have w: "whitelistedAddresses (store inst) a" and same: "inst1 = inst"
    by (auto simp: verifyUser_call split: if_splits)
  have "whitelistedAddresses (store (run repository txs inst)) a" for txs
    using w by (rule run_invariant [where P = "\<lambda>s. whitelistedAddresses s a"])
      (rule in_repository_whitelist)
  with same show ?thesis by (simp add: verifyUser_call)
qed

theorem whitelist_monotone_witness:
  "execute repository 3 4 (VerifyUser 7)
     \<lparr>active_implementation = V2_id, admin_identity = 2, upgrade_log = [],
      store = blank\<lparr>initialized := 1, owner := 1,
                     whitelistedAddresses := (\<lambda>_. False)(7 := True)\<rparr>\<rparr> =
     (Inr (RBool True),
      \<lparr>active_implementation = V2_id, admin_identity = 2, upgrade_log = [],
       store = blank\<lparr>initialized := 1, owner := 1,
                      whitelistedAddresses := (\<lambda>_. False)(7 := True)\<rparr>\<rparr>) \<and>
   whitelistedAddresses (store (run repository [(4, 1, Pause), (5, 1, RenounceOwnership)]
     \<lparr>active_implementation = V2_id, admin_identity = 2, upgrade_log = [],
      store = blank\<lparr>initialized := 1, owner := 1,
                     whitelistedAddresses := (\<lambda>_. False)(7 := True)\<rparr>\<rparr>)) 7"
proof -
  let ?inst = "\<lparr>active_implementation = V2_id, admin_identity = 2, upgrade_log = [],
      store = blank\<lparr>initialized := 1, owner := 1,
                     whitelistedAddresses := (\<lambda>_. False)(7 := True)\<rparr>\<rparr>"
  have h: "execute repository 3 4 (VerifyUser 7) ?inst = (Inr (RBool True), ?inst)"
    by (simp add: verifyUser_call)
  from whitelist_monotone [OF h] h show ?thesis by blast
qed


text \<open>
  Claim C4. The end-to-end scenario: the deploy script creates the Instance,
  \<^verbatim>\<open>mint(addr, 100)\<close> leaves \<open>addr\<close> with a balance of 100, and the admin upgrades to V2. Then
  \<^verbatim>\<open>mint(addr, 50)\<close> fails and changes nothing; \<^verbatim>\<open>addUser(addr)\<close> by the owner (the
  deployer) succeeds; \<^verbatim>\<open>verifyUser(addr)\<close> returns true; and \<^verbatim>\<open>mint(addr, 50)\<close> succeeds and
  leaves \<open>addr\<close> with a balance of 150. The callers of the mint and verify calls are
  arbitrary.
\<close>

theorem whitelist_scenario:
  assumes "deployProxy repository t0 deployer admin = Inr inst0"
    and "execute repository t1 c1 (Mint addr 100) inst0 = (r1, inst1)"
    and "balances (store inst1) addr = 100"
    and "execute repository t2 admin upgradeProxy inst1 = (r2, inst2)"
    and "execute repository t3 c3 (Mint addr 50) inst2 = (r3, inst3)"
    and "execute repository t4 deployer (AddUser addr) inst3 = (r4, inst4)"
    and "execute repository t5 c5 (VerifyUser addr) inst4 = (r5, inst5)"
    and "execute repository t6 c6 (Mint addr 50) inst5 = (r6, inst6)"
  shows "r2 = Inr RUnit \<and> r3 = Inl RequireFailed \<and> inst3 = inst2 \<and> r4 = Inr RUnit \<and>
         r5 = Inr (RBool True) \<and> r6 = Inr RUnit \<and> balances (store inst6) addr = 150"
proof -
  let ?s0 = "blank\<lparr>initialized := 1, name := ''ERC20Upgradable'', symbol := ''EUC'',
                    owner := deployer\<rparr>"
  from assms(1) have i0: "inst0 = (create admin V1_id)\<lparr>store := ?s0\<rparr>"
    by (simp add: deployProxy_repository)
  have a0: "active_implementation inst0 = V1_id" by (simp add: i0 create_def)
  have nz: "addr \<noteq> 0"
  proof
    assume "addr = 0"
    with assms(2) a0 have "inst1 = inst0" by (simp add: mint_V1_call)
    with assms(3) show False by (simp add: i0 create_def blank_def)
  qed
  from assms(2) a0 nz have i1: "inst1 = inst0\<lparr>store := ?s0\<lparr>totalSupply := 100,
      balances := (\<lambda>_. 0)(addr := 100)\<rparr>\<rparr>"
    by (simp add: mint_V1_call) (simp add: i0 create_def blank_def)
  from assms(4) have r2: "r2 = Inr RUnit" and a2: "active_implementation inst2 = V2_id"
    and s2: "store inst2 = store inst1"
    by (auto simp: upgrade_call upgradeProxy_def V2_id_def i1 i0 create_def)
  have w2: "\<not> whitelistedAddresses (store inst2) addr"
    by (simp add: s2 i1 blank_def)
  from assms(5) a2 w2 have r3: "r3 = Inl RequireFailed" and i3: "inst3 = inst2"
    by (auto simp: mint_V2_call)
  have o3: "owner (store inst3) = deployer" by (simp add: i3 s2 i1)
  from assms(6) o3 have r4: "r4 = Inr RUnit" and i4: "inst4 = inst3\<lparr>store := (store inst3)\<lparr>
              whitelistedAddresses := (whitelistedAddresses (store inst3))(addr := True)\<rparr>\<rparr>"
    using a2 i3 by (auto simp: addUser_call)
  have a4: "active_implementation inst4 = V2_id" by (simp add: i4 i3 a2)
  from assms(7) a4 have r5: "r5 = Inr (RBool True)" and i5: "inst5 = inst4"
    by (auto simp: verifyUser_call i4)
  from assms(8) a4 nz have "r6 = Inr RUnit \<and> balances (store inst6) addr = 150"
    by (auto simp: mint_V2_call i5 i4 i3 s2 i1 blank_def)
  with r2 r3 i3 r4 r5 show ?thesis by simp
qed

theorem whitelist_scenario_witness:
  "deployProxy repository 0 1 2 = Inr (snd (execute repository 0 1 Initialize (create 2 V1_id))) \<and>
   balances (store (run repository [(1, 3, Mint 7 100)]
     (snd (execute repository 0 1 Initialize (create 2 V1_id))))) 7 = 100 \<and>
   fst (execute repository 3 4 (Mint 7 50)
     (run repository [(1, 3, Mint 7 100), (2, 2, upgradeProxy)]
        (snd (execute repository 0 1 Initialize (create 2 V1_id))))) = Inl RequireFailed \<and>
   fst (execute repository 5 6 (VerifyUser 7)
     (run repository [(1, 3, Mint 7 100), (2, 2, upgradeProxy), (3, 4, Mint 7 50), (4, 1, AddUser 7)]
        (snd (execute repository 0 1 Initialize (create 2 V1_id))))) = Inr (RBool True) \<and>
   balances (store (run repository
     [(1, 3, Mint 7 100), (2, 2, upgradeProxy), (3, 4, Mint 7 50), (4, 1, AddUser 7),
      (5, 6, VerifyUser 7), (6, 5, Mint 7 50)]
     (snd (execute repository 0 1 Initialize (create 2 V1_id))))) 7 = 150"
proof -
  let ?d = "snd (execute repository 0 1 Initialize (create 2 V1_id))"
  let ?e1 = "execute repository 1 3 (Mint 7 100) ?d"
  let ?e2 = "execute repository 2 2 upgradeProxy (snd ?e1)"
  let ?e3 = "execute repository 3 4 (Mint 7 50) (snd ?e2)"
  let ?e4 = "execute repository 4 1 (AddUser 7) (snd ?e3)"
  let ?e5 = "execute repository 5 6 (VerifyUser 7) (snd ?e4)"
  let ?e6 = "execute repository 6 5 (Mint 7 50) (snd ?e5)"
  have h1: "deployProxy repository 0 1 2 = Inr ?d" by (simp add: evaluate)
  have h3: "balances (store (snd ?e1)) 7 = 100" by (simp add: evaluate)
  have "fst ?e2 = Inr RUnit \<and> fst ?e3 = Inl RequireFailed \<and> snd ?e3 = snd ?e2 \<and>
        fst ?e4 = Inr RUnit \<and> fst ?e5 = Inr (RBool True) \<and> fst ?e6 = Inr RUnit \<and>
        balances (store (snd ?e6)) 7 = 150"
    by (rule whitelist_scenario [OF h1 _ h3]) (rule prod.collapse [symmetric])+
  then have a: "fst ?e3 = Inl RequireFailed" and b: "fst ?e5 = Inr (RBool True)"
    and c: "balances (store (snd ?e6)) 7 = 150"
    by blast+
  show ?thesis
    unfolding run.simps by (intro conjI) (rule h1 h3 a b c)+
qed


section \<open>The management operations\<close>

text \<open>
  Claim C2. On an Instance of the repository's registry, a management call
  (\<^verbatim>\<open>upgrade\<close>, \<^verbatim>\<open>transferAdmin\<close>) from a caller other than the stored admin fails with
  \<open>Unauthorized\<close> and leaves the Instance exactly as it was (neither V1 nor V2 has a
  function of such a name); from the admin, \<^verbatim>\<open>upgrade(V2)\<close> and \<^verbatim>\<open>transferAdmin\<close> succeed.
\<close>

theorem management_admin_only:
  "(is_management c \<and> caller \<noteq> admin_identity inst \<longrightarrow>
      execute repository now caller c inst = (Inl Unauthorized, inst)) \<and>
   fst (execute repository now (admin_identity inst) upgradeProxy inst) = Inr RUnit \<and>
   fst (execute repository now (admin_identity inst) (TransferAdmin a) inst) = Inr RUnit"
  by (simp add: management_call upgrade_call transferAdmin_call upgradeProxy_def V2_id_def)

theorem management_admin_only_witness:
  "is_management upgradeProxy \<and>
   (9 :: address) \<noteq> admin_identity (run repository [(0, 1, Initialize)] (create 2 V1_id)) \<and>
   execute repository 3 9 upgradeProxy (run repository [(0, 1, Initialize)] (create 2 V1_id)) =
     (Inl Unauthorized, run repository [(0, 1, Initialize)] (create 2 V1_id)) \<and>
   active_implementation (run repository [(0, 1, Initialize), (3, 9, upgradeProxy)] (create 2 V1_id)) = V1_id \<and>
   fst (execute repository 4 2 upgradeProxy
          (run repository [(0, 1, Initialize), (3, 9, upgradeProxy)] (create 2 V1_id))) = Inr RUnit"
proof -
  let ?D = "run repository [(0, 1, Initialize)] (create 2 V1_id)"
  have m: "is_management upgradeProxy" by (simp add: upgradeProxy_def)
  have a: "(9 :: address) \<noteq> admin_identity ?D" "admin_identity ?D = 2"
    "active_implementation ?D = V1_id"
    unfolding deployed_instance by (simp_all add: V1_id_def)
  from management_admin_only [of upgradeProxy 9 ?D 3] m a
  have u: "execute repository 3 9 upgradeProxy ?D = (Inl Unauthorized, ?D)" by blast
  have r: "run repository [(0, 1, Initialize), (3, 9, upgradeProxy)] (create 2 V1_id) = ?D"
    using u by simp
  from management_admin_only [of upgradeProxy 9 ?D 4] a
  have "fst (execute repository 4 2 upgradeProxy ?D) = Inr RUnit" by simp
  with m a u show ?thesis unfolding r by simp
qed


lemma resolve_map: "resolve (map h reg) i = map_option h (resolve reg i)"
  by (simp add: resolve_def)

lemma migration_differs: "m \<noteq> Upgrade n (Some m)"
proof
  assume "m = Upgrade n (Some m)"
  then have "size m = size (Upgrade n (Some m))" by simp
  then show False by simp
qed


text \<open>
  Claim C7. For any registry and any call \<open>c\<close> with a management selector: from the admin it
  is the management operation that runs, and removing the function for \<open>c\<close> from every
  implementation of the registry changes nothing (implementation code for it is never
  reached); from any other caller the call is forwarded to the active implementation's
  function of that name if there is one and fails with \<open>Unauthorized\<close> otherwise, and
  whatever it does, it leaves the active implementation, the admin and the upgrade log
  untouched.
\<close>

theorem dispatch_identity_first:
  assumes "is_management c"
  shows "(caller = admin_identity inst \<longrightarrow>
            handle reg now caller c inst =
              (case c of
                 Upgrade n m \<Rightarrow> upgrade reg now caller n m inst
               | TransferAdmin a \<Rightarrow> transferAdmin caller a inst
               | _ \<Rightarrow> Inl UnknownSelector) \<and>
            handle (map (\<lambda>impl. impl(c := None)) reg) now caller c inst =
              handle reg now caller c inst) \<and>
         (caller \<noteq> admin_identity inst \<longrightarrow>
            handle reg now caller c inst =
              (case resolve reg (active_implementation inst) of
                 None \<Rightarrow> Inl Unauthorized
               | Some impl \<Rightarrow>
                   (case impl c of
                      None \<Rightarrow> Inl Unauthorized
                    | Some f \<Rightarrow>
                        (case f caller (store inst) of
                           Inl e \<Rightarrow> Inl e
                         | Inr (v, s) \<Rightarrow> Inr (v, inst\<lparr>store := s\<rparr>)))) \<and>
            (\<forall>v inst'. handle reg now caller c inst = Inr (v, inst') \<longrightarrow>
               active_implementation inst' = active_implementation inst \<and>
               admin_identity inst' = admin_identity inst \<and>
               upgrade_log inst' = upgrade_log inst))"
proof (intro conjI impI)
  assume "caller = admin_identity inst"
  with assms show "handle reg now caller c inst =
      (case c of
         Upgrade n m \<Rightarrow> upgrade reg now caller n m inst
       | TransferAdmin a \<Rightarrow> transferAdmin caller a inst
       | _ \<Rightarrow> Inl UnknownSelector)"
    by (cases c) (simp_all add: handle_def)
next
  assume adm: "caller = admin_identity inst"
  show "handle (map (\<lambda>impl. impl(c := None)) reg) now caller c inst = handle reg now caller c inst"
  proof (cases c)
    case (Upgrade n m)
    show ?thesis
    proof (cases m)
      case None
      with Upgrade adm show ?thesis
        by (simp add: handle_def upgrade_def resolve_map Let_def split: option.splits)
    next
      case (Some mc)
      have "mc \<noteq> c" unfolding Upgrade Some by (rule migration_differs)
      with Upgrade Some adm show ?thesis
        by (simp add: handle_def upgrade_def forward_def resolve_map Let_def split: option.splits)
    qed
  next
    case (TransferAdmin a)
    with adm show ?thesis by (simp add: handle_def)
  qed (use assms in simp_all)
next
  assume "caller \<noteq> admin_identity inst"
  with assms show "handle reg now caller c inst =
      (case resolve reg (active_implementation inst) of
         None \<Rightarrow> Inl Unauthorized
       | Some impl \<Rightarrow>
           (case impl c of
              None \<Rightarrow> Inl Unauthorized
            | Some f \<Rightarrow>
                (case f caller (store inst) of
                   Inl e \<Rightarrow> Inl e
                 | Inr (v, s) \<Rightarrow> Inr (v, inst\<lparr>store := s\<rparr>))))"
    by (simp add: handle_def forward_def split: option.splits)
next
  assume "caller \<noteq> admin_identity inst"
  with assms show "\<forall>v inst'. handle reg now caller c inst = Inr (v, inst') \<longrightarrow>
               active_implementation inst' = active_implementation inst \<and>
               admin_identity inst' = admin_identity inst \<and>
               upgrade_log inst' = upgrade_log inst"
    by (auto simp: handle_def forward_def split: option.splits sum.splits)
qed

theorem dispatch_identity_first_witness:
  "is_management (TransferAdmin 5) \<and>
   handle [Map.empty(TransferAdmin 5 \<mapsto> (\<lambda>caller s. Inr (RUnit, s\<lparr>owner := 5\<rparr>)))] 1 9 (TransferAdmin 5)
     \<lparr>active_implementation = 0, admin_identity = 2, upgrade_log = [], store = blank\<rparr> =
     Inr (RUnit, \<lparr>active_implementation = 0, admin_identity = 2, upgrade_log = [],
                  store = blank\<lparr>owner := 5\<rparr>\<rparr>) \<and>
   handle [Map.empty(TransferAdmin 5 \<mapsto> (\<lambda>caller s. Inr (RUnit, s\<lparr>owner := 5\<rparr>)))] 1 2 (TransferAdmin 5)
     \<lparr>active_implementation = 0, admin_identity = 2, upgrade_log = [], store = blank\<rparr> =
     Inr (RUnit, \<lparr>active_implementation = 0, admin_identity = 5, upgrade_log = [],
                  store = blank\<rparr>) \<and>
   handle repository 1 9 (TransferAdmin 5)
     \<lparr>active_implementation = 0, admin_identity = 2, upgrade_log = [], store = blank\<rparr> =
     Inl Unauthorized"
proof -
  let ?reg = "[Map.empty(TransferAdmin 5 \<mapsto> (\<lambda>caller s. Inr (RUnit, s\<lparr>owner := 5\<rparr>)))]"
  let ?inst = "\<lparr>active_implementation = 0, admin_identity = 2, upgrade_log = [], store = blank\<rparr>"
  have m: "is_management (TransferAdmin 5)" by simp
  from dispatch_identity_first [OF m, of 9 ?inst ?reg 1]
  have a: "handle ?reg 1 9 (TransferAdmin 5) ?inst =
      Inr (RUnit, \<lparr>active_implementation = 0, admin_identity = 2, upgrade_log = [],
                  store = blank\<lparr>owner := 5\<rparr>\<rparr>)"
    by (simp add: resolve_def)
  from dispatch_identity_first [OF m, of 2 ?inst ?reg 1]
  have b: "handle ?reg 1 2 (TransferAdmin 5) ?inst =
      Inr (RUnit, \<lparr>active_implementation = 0, admin_identity = 5, upgrade_log = [],
                  store = blank\<rparr>)"
    by (simp add: transferAdmin_def)
  from dispatch_identity_first [OF m, of 9 ?inst repository 1]
  have c: "handle repository 1 9 (TransferAdmin 5) ?inst = Inl Unauthorized"
    by (simp add: resolve_repository)
  from m a b c show ?thesis by blast
qed


section \<open>Upgrades and the storage layout\<close>

subsection \<open>Appended layouts\<close>

lemma position_append:
  "f \<in> set LA \<Longrightarrow> position (LA @ ext) f = position LA f"
  by (induction LA) auto

lemma appends_position:
  assumes "appends LA LB" and "f \<in> set LA"
  shows "position LB f = position LA f"
proof -
  from assms(1) have "LB = LA @ drop (length LA) LB"
    unfolding appends_def by (metis append_take_drop_id)
  then show ?thesis using position_append [OF assms(2)] by metis
qed

lemma appends_read_field:
  "appends LA LB \<Longrightarrow> f \<in> set LA \<Longrightarrow> read_field LB R f = read_field LA R f"
  by (simp add: read_field_def appends_position)

lemma appends_load:
  assumes "appends LA LB" and "f \<in> set LA"
  shows "field_cell f (load LB R) = field_cell f (load LA R)"
  using appends_read_field [OF assms(1), of _ R] assms(2)
  by (cases f) (simp_all add: load_def)

lemma appends_V1_V2: "appends layout_V1 layout_V2"
  by (simp add: appends_def layout_V2_def)

text \<open>
  A layout that reorders fields reads a field back with another value: with \<^verbatim>\<open>paused\<close> and
  \<^verbatim>\<open>initializing\<close> exchanged, a paused storage reads as unpaused.
\<close>

lemma reordered_layout_misreads:
  "\<not> appends [F_paused, F_initializing] [F_initializing, F_paused] \<and>
   field_cell F_paused (load [F_paused, F_initializing]
     (save [F_paused, F_initializing] (blank\<lparr>paused := True\<rparr>) (\<lambda>_. Untouched))) = CBool True \<and>
   field_cell F_paused (load [F_initializing, F_paused]
     (save [F_paused, F_initializing] (blank\<lparr>paused := True\<rparr>) (\<lambda>_. Untouched))) = CBool False"
  by (simp add: appends_def load_def save_def read_field_def blank_def)

subsection \<open>The record is the region seen through the layout of V2\<close>

text \<open>
  For the two contracts of the repository, a call on the Instance with a storage region does
  what the same call does on the Instance with the storage record: V2's layout has every
  field, and the functions of V1 neither read nor write the one field V1's layout lacks.
\<close>

lemma load_V2_save_V2: "load layout_V2 (save layout_V2 s R) = s"
  by (simp add: load_def save_def read_field_def layout_V2_def layout_V1_def)

lemma load_V1: "load layout_V1 R = (load layout_V2 R)\<lparr>whitelistedAddresses := (\<lambda>_. False)\<rparr>"
  by (simp add: load_def read_field_def layout_V2_def layout_V1_def)

lemma load_V2_save_V1:
  "load layout_V2 (save layout_V1 s R) =
     s\<lparr>whitelistedAddresses := whitelistedAddresses (load layout_V2 R)\<rparr>"
  by (simp add: load_def save_def read_field_def layout_V2_def layout_V1_def)

lemma V1_ignores_whitelist_Inr:
  assumes "implementation_V1 c = Some f" and "f caller s = Inr (v, s')"
  shows "f caller (s\<lparr>whitelistedAddresses := w\<rparr>) = Inr (v, s'\<lparr>whitelistedAddresses := w\<rparr>)"
  using assms
  by (cases c) (auto simp: library_defs V1_defs Let_def split: if_splits sum.splits)

lemma V1_ignores_whitelist_Inl:
  assumes "implementation_V1 c = Some f" and "f caller s = Inl e"
  shows "f caller (s\<lparr>whitelistedAddresses := w\<rparr>) = Inl e"
  using assms
  by (cases c) (auto simp: library_defs V1_defs Let_def split: if_splits sum.splits)

lemma lookup_deployed_contracts:
  "lookup deployed_contracts i =
     (if i = 0 then Some (layout_V1, implementation_V1)
      else if i = 1 then Some (layout_V2, implementation_V2) else None)"
  by (auto simp: lookup_def deployed_contracts_def nth_Cons split: nat.splits)

lemma abstraction_simps [simp]:
  "active_implementation (abstraction p) = proxy_implementation p"
  "admin_identity (abstraction p) = proxy_admin p"
  "upgrade_log (abstraction p) = proxy_log p"
  "store (abstraction p) = load layout_V2 (region p)"
  "abstraction (p\<lparr>proxy_implementation := n\<rparr>) = (abstraction p)\<lparr>active_implementation := n\<rparr>"
  "abstraction (p\<lparr>proxy_admin := a\<rparr>) = (abstraction p)\<lparr>admin_identity := a\<rparr>"
  "abstraction (p\<lparr>proxy_log := l\<rparr>) = (abstraction p)\<lparr>upgrade_log := l\<rparr>"
  "abstraction (p\<lparr>region := R\<rparr>) = (abstraction p)\<lparr>store := load layout_V2 R\<rparr>"
  by (simp_all add: abstraction_def)

lemma region_forward_V2:
  "forward implementation_V2 caller c missing (abstraction p) =
     map_sum id (map_prod id abstraction)
       (region_forward (layout_V2, implementation_V2) caller c missing p)"
  by (simp add: forward_def region_forward_def load_V2_save_V2
      split: option.splits sum.splits prod.splits)

lemma region_forward_V1:
  "forward implementation_V1 caller c missing (abstraction p) =
     map_sum id (map_prod id abstraction)
       (region_forward (layout_V1, implementation_V1) caller c missing p)"
proof (cases "implementation_V1 c")
  case None
  then show ?thesis by (simp add: forward_def region_forward_def)
next
  case (Some f)
  let ?S = "load layout_V2 (region p)"
  let ?w = "whitelistedAddresses ?S"
  have S: "?S = (load layout_V1 (region p))\<lparr>whitelistedAddresses := ?w\<rparr>"
    by (simp add: load_V1)
  show ?thesis
  proof (cases "f caller (load layout_V1 (region p))")
    case (Inl e)
    from V1_ignores_whitelist_Inl [OF Some Inl, of ?w] S
    have "f caller ?S = Inl e" by simp
    with Some Inl show ?thesis by (simp add: forward_def region_forward_def)
  next
    case (Inr r)
    obtain v s' where r: "r = (v, s')" by (cases r)
    from V1_ignores_whitelist_Inr [OF Some Inr [unfolded r], of ?w] S
    have "f caller ?S = Inr (v, s'\<lparr>whitelistedAddresses := ?w\<rparr>)" by simp
    with Some Inr r show ?thesis
      by (simp add: forward_def region_forward_def load_V2_save_V1)
  qed
qed

lemma region_forward_simulates:
  assumes "lookup deployed_contracts i = Some ct"
  shows "resolve repository i = Some (snd ct) \<and>
         forward (snd ct) caller c missing (abstraction p) =
           map_sum id (map_prod id abstraction) (region_forward ct caller c missing p)"
  using assms region_forward_V1 region_forward_V2
  by (auto simp: lookup_deployed_contracts resolve_repository split: if_splits)

lemma lookup_None:
  "lookup deployed_contracts i = None \<Longrightarrow> resolve repository i = None"
  by (auto simp: lookup_deployed_contracts resolve_repository split: if_splits)

lemma region_handle_simulates:
  "handle repository now caller c (abstraction p) =
     map_sum id (map_prod id abstraction) (region_handle deployed_contracts now caller c p)"
proof (cases "is_management c \<and> caller = proxy_admin p")
  case True
  show ?thesis
  proof (cases c)
    case (Upgrade n m)
    show ?thesis
    proof (cases "lookup deployed_contracts n")
      case None
      with True Upgrade lookup_None [OF None] show ?thesis
        by (simp add: handle_def region_handle_def upgrade_def region_upgrade_def)
    next
      case (Some ct)
      note sim = region_forward_simulates [OF Some]
      show ?thesis
      proof (cases m)
        case None
        with True Upgrade Some sim show ?thesis
          by (simp add: handle_def region_handle_def upgrade_def region_upgrade_def)
      next
        case mc: (Some mc)
        from sim [of caller mc UnknownSelector "p\<lparr>proxy_implementation := n\<rparr>"]
        have f: "forward (snd ct) caller mc UnknownSelector
              ((abstraction p)\<lparr>active_implementation := n\<rparr>) =
            map_sum id (map_prod id abstraction)
              (region_forward ct caller mc UnknownSelector (p\<lparr>proxy_implementation := n\<rparr>))"
          by simp
        from True Upgrade Some mc sim [THEN conjunct1] f show ?thesis
          by (auto simp: handle_def region_handle_def upgrade_def region_upgrade_def Let_def
              split: sum.splits prod.splits)
      qed
    qed
  next
    case (TransferAdmin a)
    with True show ?thesis
      by (simp add: handle_def region_handle_def transferAdmin_def region_transferAdmin_def)
  qed (use True in simp_all)
next
  case False
  show ?thesis
  proof (cases "lookup deployed_contracts (proxy_implementation p)")
    case None
    with False lookup_None [OF None] show ?thesis
      by (auto simp: handle_def region_handle_def)
  next
    case (Some ct)
    from region_forward_simulates [OF Some] False Some show ?thesis
      by (auto simp: handle_def region_handle_def)
  qed
qed

lemma region_execute_simulates:
  "execute repository now caller c (abstraction p) =
     map_prod id abstraction (region_execute deployed_contracts now caller c p)"
  by (simp add: execute_def region_execute_def region_handle_simulates
      split: sum.splits prod.splits)

lemma region_run_simulates:
  "run repository txs (abstraction p) = abstraction (region_run deployed_contracts txs p)"
proof (induction txs arbitrary: p)
  case Nil
  then show ?case by simp
next
  case (Cons tx txs)
  obtain now caller c where tx: "tx = (now, caller, c)" by (cases tx)
  show ?case by (simp add: tx region_execute_simulates Cons.IH)
qed

lemma abstraction_region_create: "abstraction (region_create admin impl_id) = create admin impl_id"
  by (simp add: abstraction_def region_create_def create_def load_def read_field_def blank_def
      split: option.splits)

subsection \<open>After an upgrade\<close>

lemma region_execute_keeps_implementation:
  assumes "\<not> is_upgrade c"
  shows "proxy_implementation (snd (region_execute contracts now caller c p)) =
         proxy_implementation p"
  using assms
  by (cases c)
    (auto simp: region_execute_def region_handle_def region_forward_def region_transferAdmin_def
      split: sum.splits option.splits)

lemma region_run_keeps_implementation:
  assumes "\<forall>tx \<in> set txs. \<not> is_upgrade (snd (snd tx))"
  shows "proxy_implementation (region_run contracts txs p) = proxy_implementation p"
  using assms
proof (induction txs arbitrary: p)
  case Nil
  then show ?case by simp
next
  case (Cons tx txs)
  obtain now caller c where tx: "tx = (now, caller, c)" by (cases tx)
  with Cons show ?case by (simp add: region_execute_keeps_implementation)
qed

text \<open>
  Claim C3. Take any registry of deployed implementations and any Instance whose active
  implementation is \<open>A\<close>, with layout \<open>LA\<close>. After a successful \<^verbatim>\<open>upgrade(B)\<close> by the admin
  (with or without a migration call), \<open>B\<close> is the active implementation, and along every
  history of calls that follows, by any callers, as long as it has no further \<^verbatim>\<open>upgrade\<close>
  call, every business call is forwarded to \<open>B\<close>'s function, run through \<open>B\<close>'s layout \<open>LB\<close>.
  Without a migration call the upgrade leaves the storage region as it was, and provided
  \<open>LB\<close> only appends fields relative to \<open>LA\<close>, every field of \<open>A\<close> reads back under \<open>B\<close>'s
  layout with the value it had under \<open>A\<close>'s.
\<close>

theorem upgrade_routes_and_preserves:
  assumes "lookup contracts (proxy_implementation p) = Some (LA, A)"
    and "lookup contracts B_id = Some (LB, B)"
    and "appends LA LB"
    and "region_execute contracts now (proxy_admin p) (Upgrade B_id m) p = (Inr v, p')"
  shows "proxy_implementation p' = B_id \<and>
         (\<forall>txs now' caller' c.
            (\<forall>tx \<in> set txs. \<not> is_upgrade (snd (snd tx))) \<and> \<not> is_management c \<longrightarrow>
            region_handle contracts now' caller' c (region_run contracts txs p') =
              region_forward (LB, B) caller' c UnknownSelector (region_run contracts txs p')) \<and>
         (m = None \<longrightarrow>
            region p' = region p \<and>
            (\<forall>f \<in> set LA. field_cell f (load LB (region p')) = field_cell f (load LA (region p))))"
proof -
  from assms(2,4) have act: "proxy_implementation p' = B_id"
    by (auto simp: region_execute_def region_handle_def region_upgrade_def region_forward_def
        Let_def split: option.splits sum.splits if_splits)
  have route: "region_handle contracts now' caller' c (region_run contracts txs p') =
      region_forward (LB, B) caller' c UnknownSelector (region_run contracts txs p')"
    if "\<forall>tx \<in> set txs. \<not> is_upgrade (snd (snd tx))" and "\<not> is_management c"
    for txs now' caller' c
  proof -
    from that(1) have "proxy_implementation (region_run contracts txs p') = B_id"
      by (simp add: region_run_keeps_implementation act)
    with that(2) assms(2) show ?thesis by (simp add: region_handle_def)
  qed
  have keep: "region p' = region p" if "m = None"
    using that assms(2,4)
    by (auto simp: region_execute_def region_handle_def region_upgrade_def Let_def
        split: option.splits sum.splits if_splits)
  from act route keep appends_load [OF assms(3)] show ?thesis by simp
qed

theorem upgrade_routes_and_preserves_witness:
  "lookup deployed_contracts (proxy_implementation
      (region_run deployed_contracts [(0, 1, Initialize), (1, 3, Mint 7 100)] (region_create 2 V1_id))) =
     Some (layout_V1, implementation_V1) \<and>
   lookup deployed_contracts V2_id = Some (layout_V2, implementation_V2) \<and>
   appends layout_V1 layout_V2 \<and>
   proxy_admin (region_run deployed_contracts [(0, 1, Initialize), (1, 3, Mint 7 100)]
      (region_create 2 V1_id)) = 2 \<and>
   fst (region_execute deployed_contracts 2 2 upgradeProxy
      (region_run deployed_contracts [(0, 1, Initialize), (1, 3, Mint 7 100)]
         (region_create 2 V1_id))) = Inr RUnit \<and>
   field_cell F_totalSupply (load layout_V2 (region
      (region_run deployed_contracts [(0, 1, Initialize), (1, 3, Mint 7 100), (2, 2, upgradeProxy)]
         (region_create 2 V1_id)))) = CUint256 100 \<and>
   fst (region_execute deployed_contracts 3 5 (BalanceOf 7)
      (region_run deployed_contracts [(0, 1, Initialize), (1, 3, Mint 7 100), (2, 2, upgradeProxy)]
         (region_create 2 V1_id))) = Inr (RUint 100) \<and>
   fst (region_execute deployed_contracts 4 5 (VerifyUser 7)
      (region_run deployed_contracts [(0, 1, Initialize), (1, 3, Mint 7 100), (2, 2, upgradeProxy)]
         (region_create 2 V1_id))) = Inr (RBool False)"
proof -
  define p where "p = region_run deployed_contracts [(0, 1, Initialize), (1, 3, Mint 7 100)]
      (region_create 2 V1_id)"
  define q where "q = snd (region_execute deployed_contracts 2 2 upgradeProxy p)"
  let ?I = "\<lparr>active_implementation = 0, admin_identity = 2, upgrade_log = [],
      store = blank\<lparr>initialized := 1, name := ''ERC20Upgradable'', symbol := ''EUC'',
                     owner := 1, totalSupply := 100, balances := (\<lambda>_. 0)(7 := 100)\<rparr>\<rparr>"
  have "abstraction p = run repository [(0, 1, Initialize), (1, 3, Mint 7 100)] (create 2 V1_id)"
    by (simp only: p_def region_run_simulates [symmetric] abstraction_region_create)
  also have "\<dots> = ?I" by (simp add: evaluate)
  finally have ap: "abstraction p = ?I" .
  have impl: "proxy_implementation p = 0" and adm: "proxy_admin p = 2"
    and st: "load layout_V2 (region p) = store ?I"
    using arg_cong [OF ap, of active_implementation] arg_cong [OF ap, of admin_identity]
      arg_cong [OF ap, of store]
    by simp_all
  have h1: "lookup deployed_contracts (proxy_implementation p) = Some (layout_V1, implementation_V1)"
    by (simp add: impl lookup_deployed_contracts)
  have h2: "lookup deployed_contracts V2_id = Some (layout_V2, implementation_V2)"
    by (simp add: lookup_deployed_contracts V2_id_def)
  have "map_prod id abstraction (region_execute deployed_contracts 2 2 upgradeProxy p) =
      execute repository 2 2 upgradeProxy ?I"
    by (simp only: region_execute_simulates [symmetric] ap)
  also have "fst \<dots> = Inr RUnit"
    by (simp add: upgrade_call upgradeProxy_def V2_id_def)
  finally have f: "fst (region_execute deployed_contracts 2 2 upgradeProxy p) = Inr RUnit"
    by (cases "region_execute deployed_contracts 2 2 upgradeProxy p") simp
  have h4: "region_execute deployed_contracts 2 (proxy_admin p) (Upgrade V2_id None) p =
      (Inr RUnit, q)"
    unfolding adm upgradeProxy_def [symmetric] q_def
    by (rule prod_eqI) (simp_all only: f fst_conv snd_conv)
  note th = upgrade_routes_and_preserves [OF h1 h2 appends_V1_V2 h4]
  note keep = th [THEN conjunct2, THEN conjunct2, THEN mp, OF refl]
  note same = keep [THEN conjunct1]
  have "F_totalSupply \<in> set layout_V1" and "F_balances \<in> set layout_V1"
    by (simp_all add: layout_V1_def)
  note rb = keep [THEN conjunct2, THEN bspec, OF this(1)]
    and bal = keep [THEN conjunct2, THEN bspec, OF this(2)]
  have route: "region_handle deployed_contracts now' caller' c q =
        region_forward (layout_V2, implementation_V2) caller' c UnknownSelector q"
    if "\<not> is_management c" for now' caller' c
    using th [THEN conjunct2, THEN conjunct1, THEN spec, of "[]"] that by simp
  have ts: "field_cell F_totalSupply (load layout_V2 (region q)) = CUint256 100"
    unfolding rb by (simp add: load_V1 st blank_def)
  have bq: "balances (load layout_V2 (region q)) 7 = 100"
    using bal by (simp add: load_V1 st blank_def)
  have wq: "\<not> whitelistedAddresses (load layout_V2 (region q)) 7"
    unfolding same by (simp add: st blank_def)
  have b: "fst (region_execute deployed_contracts 3 5 (BalanceOf 7) q) = Inr (RUint 100)"
    using route [of "BalanceOf 7" 3 5] bq
    by (simp add: region_execute_def region_forward_def view_def)
  have w: "fst (region_execute deployed_contracts 4 5 (VerifyUser 7) q) = Inr (RBool False)"
    using route [of "VerifyUser 7" 4 5] wq
    by (simp add: region_execute_def region_forward_def view_def V2_verifyUser_def)
  have r: "region_run deployed_contracts [(0, 1, Initialize), (1, 3, Mint 7 100), (2, 2, upgradeProxy)]
         (region_create 2 V1_id) = q"
    by (simp add: q_def p_def)
  note facts = h1 h2 appends_V1_V2 adm f ts b w
  show ?thesis
    unfolding r p_def [symmetric] by (intro conjI) (rule facts)+
qed


end
